theory Spec2Isabelle
  imports Complex_Main "HOL-Library.Log_Nat" "HOL-Library.Word"
begin

unbundle bit_operations_syntax

section \<open>Machine arithmetic of the C++ source\<close>

text \<open>
  The program is \<^verbatim>\<open>src/lib/dcp_video_frame.cc\<close>. It computes with \<^verbatim>\<open>uint8_t\<close>, with
  32-bit \<^verbatim>\<open>int\<close>, with \<^verbatim>\<open>float\<close> and with \<^verbatim>\<open>double\<close>. Bytes are 8-bit words. An
  \<^verbatim>\<open>int\<close> is a mathematical integer together with the range check of \<open>int32\<close>: signed
  overflow is undefined behaviour in C++, which the model reports as \<open>None\<close>.
\<close>

type_synonym byte = "8 word"

definition INT_MIN :: int where
  "INT_MIN = - (2 ^ 31)"

definition INT_MAX :: int where
  "INT_MAX = 2 ^ 31 - 1"

definition int32 :: "int \<Rightarrow> int option" where
  "int32 n = (if INT_MIN \<le> n \<and> n \<le> INT_MAX then Some n else None)"

subsection \<open>IEEE 754 binary floating point\<close>

text \<open>
  A floating-point datum is a finite rational, an infinity or a NaN. Every arithmetic
  operation computes the exact rational result and rounds it to the nearest
  representable value, ties to the even significand (the default rounding mode), in a
  format of precision \<open>p\<close> bits with exponents from \<open>emin\<close> to \<open>emax\<close>:
  \<^verbatim>\<open>float\<close> is binary32 (\<open>p = 24\<close>), \<^verbatim>\<open>double\<close> is binary64 (\<open>p = 53\<close>).
  Each operation is rounded once to the format of its C++ type (no excess precision, no
  fused multiply-add). The sign of a zero is not recorded: the only division of the
  source whose divisor can be zero takes the divisor from an \<^verbatim>\<open>int\<close>, which converts to
  a positive zero.
\<close>

datatype fp = Finite rat | PInf | NInf | NaN

definition pow2 :: "int \<Rightarrow> rat" where
  "pow2 e = (if 0 \<le> e then 2 ^ nat e else 1 / 2 ^ nat (- e))"

text \<open>\<open>ilog2 x\<close> is the binary exponent of \<open>x \<noteq> 0\<close>: \<open>2 ^ ilog2 x \<le> \<bar>x\<bar> < 2 ^ (ilog2 x + 1)\<close>.\<close>

definition ilog2 :: "rat \<Rightarrow> int" where
  "ilog2 x = (if 1 \<le> \<bar>x\<bar> then bitlen \<lfloor>\<bar>x\<bar>\<rfloor> - 1 else - bitlen (\<lceil>1 / \<bar>x\<bar>\<rceil> - 1))"

definition round_half_even :: "rat \<Rightarrow> int" where
  "round_half_even x =
     (let f = \<lfloor>x\<rfloor>; r = x - of_int f
      in if r < 1 / 2 then f else if 1 / 2 < r then f + 1 else if even f then f else f + 1)"

text \<open>
  Rounding to the format: the unit in the last place \<open>u\<close> is fixed by the exponent of
  \<open>x\<close> (by \<open>emin\<close> in the subnormal range), the significand is the nearest integer
  multiple of \<open>u\<close>. A result that needs an exponent above \<open>emax\<close> overflows to an
  infinity.
\<close>

definition fround :: "nat \<Rightarrow> int \<Rightarrow> int \<Rightarrow> rat \<Rightarrow> fp" where
  "fround p emin emax x =
     (if x = 0 then Finite 0
      else let e = max (ilog2 x) emin;
               u = pow2 (e - (int p - 1));
               m = round_half_even (x / u)
           in if emax < e \<or> (e = emax \<and> \<bar>m\<bar> = 2 ^ p)
              then (if 0 < x then PInf else NInf)
              else Finite (of_int m * u))"

definition f32 :: "rat \<Rightarrow> fp" where
  "f32 = fround 24 (- 126) 127"

definition f64 :: "rat \<Rightarrow> fp" where
  "f64 = fround 53 (- 1022) 1023"

definition fp_neg :: "fp \<Rightarrow> bool" where
  "fp_neg a = (case a of Finite x \<Rightarrow> x < 0 | NInf \<Rightarrow> True | _ \<Rightarrow> False)"

definition fp_add :: "(rat \<Rightarrow> fp) \<Rightarrow> fp \<Rightarrow> fp \<Rightarrow> fp" where
  "fp_add rnd a b =
     (if a = NaN \<or> b = NaN then NaN
      else case (a, b) of
        (Finite x, Finite y) \<Rightarrow> rnd (x + y)
      | (Finite x, i) \<Rightarrow> i
      | (i, Finite y) \<Rightarrow> i
      | (i, j) \<Rightarrow> if i = j then i else NaN)"

definition fp_mul :: "(rat \<Rightarrow> fp) \<Rightarrow> fp \<Rightarrow> fp \<Rightarrow> fp" where
  "fp_mul rnd a b =
     (case (a, b) of
        (Finite x, Finite y) \<Rightarrow> rnd (x * y)
      | _ \<Rightarrow> if a = NaN \<or> b = NaN \<or> a = Finite 0 \<or> b = Finite 0 then NaN
             else if fp_neg a = fp_neg b then PInf else NInf)"

definition fp_div :: "(rat \<Rightarrow> fp) \<Rightarrow> fp \<Rightarrow> fp \<Rightarrow> fp" where
  "fp_div rnd a b =
     (if a = NaN \<or> b = NaN then NaN
      else case (a, b) of
        (Finite x, Finite y) \<Rightarrow>
          (if y = 0 then (if x = 0 then NaN else if 0 < x then PInf else NInf)
           else rnd (x / y))
      | (Finite x, i) \<Rightarrow> Finite 0
      | (i, Finite y) \<Rightarrow> (if (i = PInf) = (0 \<le> y) then PInf else NInf)
      | (i, j) \<Rightarrow> NaN)"

text \<open>
  Conversion of a floating-point value to \<^verbatim>\<open>int\<close>, the cast \<^verbatim>\<open>(int) d\<close> and the
  initialisation of an \<^verbatim>\<open>int\<close> from a floating expression: the value is truncated toward
  zero; the behaviour is undefined (\<open>None\<close>) when the truncated value is not an
  \<^verbatim>\<open>int\<close>, in particular for infinities and NaN.
\<close>

definition truncate_toward_zero :: "rat \<Rightarrow> int" where
  "truncate_toward_zero x = (if 0 \<le> x then \<lfloor>x\<rfloor> else \<lceil>x\<rceil>)"

definition to_int :: "fp \<Rightarrow> int option" where
  "to_int a = (case a of Finite x \<Rightarrow> int32 (truncate_toward_zero x) | _ \<Rightarrow> None)"

text \<open>Conversion of an \<^verbatim>\<open>int\<close> to \<^verbatim>\<open>float\<close> (rounded) and to \<^verbatim>\<open>double\<close> (exact).\<close>

definition float_of_int :: "int \<Rightarrow> fp" where
  "float_of_int n = f32 (of_int n)"

definition double_of_int :: "int \<Rightarrow> fp" where
  "double_of_int n = f64 (of_int n)"

text \<open>Bounds-checked read of an array element; an index out of range is undefined.\<close>

definition arr :: "'a list \<Rightarrow> int \<Rightarrow> 'a option" where
  "arr xs i = (if 0 \<le> i \<and> i < int (length xs) then Some (xs ! nat i) else None)"

subsection \<open>Decimal output of a stream\<close>

text \<open>\<^verbatim>\<open>stringstream << n\<close> for an \<^verbatim>\<open>int\<close> in the classic locale.\<close>

definition digit_char :: "int \<Rightarrow> char" where
  "digit_char d = char_of (48 + d)"

function show_digits :: "int \<Rightarrow> string" where
  "show_digits n =
     (if n < 10 then [digit_char n] else show_digits (n div 10) @ [digit_char (n mod 10)])"
  by pat_completeness auto
termination
  by (relation "measure nat") auto

definition show_int :: "int \<Rightarrow> string" where
  "show_int n = (if n < 0 then CHR ''-'' # show_digits (- n) else show_digits n)"

definition bytes_of :: "string \<Rightarrow> byte list" where
  "bytes_of s = map of_char s"

definition chars_of :: "byte list \<Rightarrow> string" where
  "chars_of bs = map (\<lambda>b. char_of (unat b)) bs"

definition NUL :: byte where
  "NUL = 0"

section \<open>Data model\<close>

text \<open>
  The classes \<^verbatim>\<open>Size\<close>, \<^verbatim>\<open>Image\<close>, \<^verbatim>\<open>Scaler\<close>, \<^verbatim>\<open>Config\<close>, \<^verbatim>\<open>Options\<close>,
  \<^verbatim>\<open>ServerDescription\<close> and \<^verbatim>\<open>Log\<close> are declared in other headers of the library; each is
  modelled by the members that \<^verbatim>\<open>dcp_video_frame.cc\<close> reads. An image has
  \<^verbatim>\<open>components()\<close> planes; plane \<open>i\<close> has the buffer \<^verbatim>\<open>data()[i]\<close>, the line size
  \<^verbatim>\<open>line_size()[i]\<close> in bytes and \<^verbatim>\<open>lines(i)\<close> lines.
\<close>

record frame_size =
  width :: int
  height :: int

record plane =
  plane_data :: "byte list"
  line_size :: int
  lines :: int

record image =
  image_size :: frame_size
  pixel_format :: int
  planes :: "plane list"

definition components :: "image \<Rightarrow> int" where
  "components im = int (length (planes im))"

record scaler =
  scaler_id :: string

record config =
  server_port :: int
  config_colour_lut_index :: int
  config_j2k_bandwidth :: int

record server_description =
  host_name :: string

text \<open>The members of \<^verbatim>\<open>DCPVideoFrame\<close> that the constructor initialises from its arguments.\<close>

record dcp_video_frame =
  input :: image
  out_size :: frame_size
  padding :: int
  frame_scaler :: scaler
  frame :: int
  frames_per_second :: int
  post_process :: string
  colour_lut_index :: int
  j2k_bandwidth :: int

text \<open>
  The constructor. \<^verbatim>\<open>fps\<close> is a finite \<^verbatim>\<open>float\<close>; \<^verbatim>\<open>rint\<close> rounds it to the nearest
  integer, ties to even, and the member \<^verbatim>\<open>_frames_per_second\<close> is an \<^verbatim>\<open>int\<close>: the
  conversion of a rounded rate that is not an \<^verbatim>\<open>int\<close> is undefined (\<open>None\<close>).
\<close>

definition DCPVideoFrame ::
  "image \<Rightarrow> frame_size \<Rightarrow> int \<Rightarrow> scaler \<Rightarrow> int \<Rightarrow> rat \<Rightarrow> string \<Rightarrow> int \<Rightarrow> int
     \<Rightarrow> dcp_video_frame option" where
  "DCPVideoFrame yuv out p s f fps pp clut bw =
     (case int32 (round_half_even fps) of
        None \<Rightarrow> None
      | Some rate \<Rightarrow>
          Some \<lparr>input = yuv, out_size = out, padding = p, frame_scaler = s, frame = f,
                frames_per_second = rate, post_process = pp,
                colour_lut_index = clut, j2k_bandwidth = bw\<rparr>)"

text \<open>
  \<^verbatim>\<open>EncodedData\<close> holds \<^verbatim>\<open>_data\<close> and \<^verbatim>\<open>_size\<close>; its two subclasses differ in who owns
  the buffer.
\<close>

datatype ownership = LocallyEncoded | RemotelyEncoded

record encoded_data =
  ed_data :: "byte list"
  ed_size :: int
  ed_owner :: ownership

text \<open>
  Exceptions. \<^verbatim>\<open>EncodeError\<close>, \<^verbatim>\<open>NetworkError\<close> and \<^verbatim>\<open>WriteFileError\<close> are classes of
  \<^verbatim>\<open>exceptions.h\<close>; \<open>BadAlloc\<close> is thrown by \<^verbatim>\<open>new\<close>, \<open>SystemError\<close> by the Boost
  resolver and by \<^verbatim>\<open>filesystem::rename\<close>. \<open>InvalidParameter\<close> is an error kind that
  only the specification names: no function of the source constructs it.
\<close>

datatype error =
    EncodeError string
  | NetworkError string
  | WriteFileError string int
  | BadAlloc
  | SystemError
  | InvalidParameter

text \<open>
  What a call does: it returns a value, throws, or runs into undefined behaviour
  (an out-of-range array access, an overflowing \<^verbatim>\<open>int\<close>, an unrepresentable conversion).
\<close>

datatype 'a outcome = Returned 'a | Threw error | Undefined

section \<open>Colour transform (lines 175 to 196)\<close>

text \<open>
  The tables and macros are declared in \<^verbatim>\<open>lut.h\<close>, whose contents are not known here; they are
  parameters of the model: the input gamma tables \<^verbatim>\<open>lut_in\<close>, the matrices
  \<^verbatim>\<open>color_matrix\<close>, the output gamma tables \<^verbatim>\<open>lut_out\<close> with the row index
  \<^verbatim>\<open>LO_DCI\<close>, and the macros \<^verbatim>\<open>DCI_COEFFICENT\<close> (a floating constant) and
  \<^verbatim>\<open>DCI_LUT_SIZE\<close> (an integer constant). Table entries are the finite floating-point
  values they store.
\<close>

record luts =
  lut_in :: "rat list list"
  color_matrix :: "rat list list list"
  lut_out :: "int list list"
  LO_DCI :: int
  DCI_COEFFICENT :: rat
  DCI_LUT_SIZE :: int

text \<open>\<^verbatim>\<open>lut_in[_colour_lut_index][*p++ << 4]\<close>: the byte is promoted to \<^verbatim>\<open>int\<close> and shifted.\<close>

definition in_gamma :: "luts \<Rightarrow> int \<Rightarrow> byte \<Rightarrow> fp option" where
  "in_gamma T clut b =
     (case arr (lut_in T) clut of
        None \<Rightarrow> None
      | Some row \<Rightarrow> map_option Finite (arr row (push_bit 4 (uint b))))"

definition matrix_entry :: "luts \<Rightarrow> int \<Rightarrow> int \<Rightarrow> int \<Rightarrow> fp option" where
  "matrix_entry T clut i j =
     (case arr (color_matrix T) clut of
        None \<Rightarrow> None
      | Some m \<Rightarrow> (case arr m i of None \<Rightarrow> None | Some row \<Rightarrow> map_option Finite (arr row j)))"

text \<open>
  \<^verbatim>\<open>(s.r * color_matrix[c][i][0]) + (s.g * color_matrix[c][i][1]) + (s.b * color_matrix[c][i][2])\<close>
  in \<^verbatim>\<open>double\<close>.
\<close>

definition matrix_row :: "luts \<Rightarrow> int \<Rightarrow> int \<Rightarrow> fp \<Rightarrow> fp \<Rightarrow> fp \<Rightarrow> fp option" where
  "matrix_row T clut i sr sg sb =
     (case (matrix_entry T clut i 0, matrix_entry T clut i 1, matrix_entry T clut i 2) of
        (Some m0, Some m1, Some m2) \<Rightarrow>
          Some (fp_add f64 (fp_add f64 (fp_mul f64 sr m0) (fp_mul f64 sg m1)) (fp_mul f64 sb m2))
      | _ \<Rightarrow> None)"

text \<open>\<^verbatim>\<open>d.x * DCI_COEFFICENT * (DCI_LUT_SIZE - 1)\<close>, evaluated from the left.\<close>

definition dci_companding :: "luts \<Rightarrow> fp \<Rightarrow> fp" where
  "dci_companding T d =
     fp_mul f64 (fp_mul f64 d (Finite (DCI_COEFFICENT T))) (double_of_int (DCI_LUT_SIZE T - 1))"

text \<open>\<^verbatim>\<open>lut_out[LO_DCI][(int) d.x]\<close>.\<close>

definition out_gamma :: "luts \<Rightarrow> fp \<Rightarrow> int option" where
  "out_gamma T d =
     (case to_int d of
        None \<Rightarrow> None
      | Some k \<Rightarrow> (case arr (lut_out T) (LO_DCI T) of None \<Rightarrow> None | Some row \<Rightarrow> arr row k))"

text \<open>
  The body of the loop for one pixel with the bytes \<open>r\<close>, \<open>g\<close>, \<open>b\<close>: first the values
  of \<^verbatim>\<open>d.x\<close>, \<^verbatim>\<open>d.y\<close>, \<^verbatim>\<open>d.z\<close> after line 190, then the three samples.
\<close>

definition xyz_companded :: "luts \<Rightarrow> int \<Rightarrow> byte \<Rightarrow> byte \<Rightarrow> byte \<Rightarrow> (fp \<times> fp \<times> fp) option" where
  "xyz_companded T clut r g b =
     (case (in_gamma T clut r, in_gamma T clut g, in_gamma T clut b) of
        (Some sr, Some sg, Some sb) \<Rightarrow>
          (case (matrix_row T clut 0 sr sg sb, matrix_row T clut 1 sr sg sb,
                 matrix_row T clut 2 sr sg sb) of
             (Some dx, Some dy, Some dz) \<Rightarrow>
               Some (dci_companding T dx, dci_companding T dy, dci_companding T dz)
           | _ \<Rightarrow> None)
      | _ \<Rightarrow> None)"

definition rgb_to_xyz :: "luts \<Rightarrow> int \<Rightarrow> byte \<Rightarrow> byte \<Rightarrow> byte \<Rightarrow> (int \<times> int \<times> int) option" where
  "rgb_to_xyz T clut r g b =
     (case xyz_companded T clut r g b of
        None \<Rightarrow> None
      | Some (dx, dy, dz) \<Rightarrow>
          (case (out_gamma T dx, out_gamma T dy, out_gamma T dz) of
             (Some x, Some y, Some z) \<Rightarrow> Some (x, y, z)
           | _ \<Rightarrow> None))"

text \<open>
  The loop \<^verbatim>\<open>for (int i = 0; i < size; ++i)\<close>. \<open>p\<close> is what the pointer \<^verbatim>\<open>p\<close> has still
  to read; reading past the end of the buffer is undefined. \<open>cx\<close>, \<open>cy\<close>, \<open>cz\<close> are
  \<^verbatim>\<open>_image->comps[0..2].data\<close>.
\<close>

function convert_loop ::
  "luts \<Rightarrow> int \<Rightarrow> byte list \<Rightarrow> nat \<Rightarrow> nat \<Rightarrow> int list \<times> int list \<times> int list
     \<Rightarrow> (int list \<times> int list \<times> int list) option" where
  "convert_loop T clut p i n (cx, cy, cz) =
     (if i < n then
        (case p of
           r # g # b # p' \<Rightarrow>
             (case rgb_to_xyz T clut r g b of
                None \<Rightarrow> None
              | Some (x, y, z) \<Rightarrow>
                  convert_loop T clut p' (Suc i) n (cx[i := x], cy[i := y], cz[i := z]))
         | _ \<Rightarrow> None)
      else Some (cx, cy, cz))"
  by pat_completeness auto
termination
  by (relation "measure (\<lambda>(T, clut, p, i, n, c). n - i)") auto

text \<open>
  The loop on the first plane of the prepared image, into the three components of a
  container that \<^verbatim>\<open>opj_image_create\<close> has allocated with \<open>sz\<close> zero samples each.
\<close>

definition convert :: "luts \<Rightarrow> int \<Rightarrow> image \<Rightarrow> int \<Rightarrow> (int list \<times> int list \<times> int list) option" where
  "convert T clut prepared sz =
     (case planes prepared of
        [] \<Rightarrow> None
      | p # _ \<Rightarrow>
          convert_loop T clut (plane_data p) 0 (nat sz)
            (replicate (nat sz) 0, replicate (nat sz) 0, replicate (nat sz) 0))"

section \<open>Local encoding\<close>

subsection \<open>The libopenjpeg parameters (lines 198 to 250)\<close>

text \<open>
  \<^verbatim>\<open>opj_cparameters_t\<close>, the enumerations and the functions \<^verbatim>\<open>opj_*\<close> belong to
  libopenjpeg. The record has the members that \<^verbatim>\<open>encode_locally\<close> assigns.
\<close>

datatype opj_prog_order = LRCP | RLCP | RPCL | PCRL | CPRL

datatype opj_rsiz = STD_RSIZ | CINEMA2K | CINEMA4K

datatype opj_cinema_mode = OFF | CINEMA2K_24 | CINEMA2K_48 | CINEMA4K_24

record opj_cparameters =
  tile_size_on :: bool
  cp_tdx :: int
  cp_tdy :: int
  tp_flag :: char
  tp_on :: int
  cp_tx0 :: int
  cp_ty0 :: int
  image_offset_x0 :: int
  image_offset_y0 :: int
  cblockw_init :: int
  cblockh_init :: int
  csty :: int
  prog_order :: opj_prog_order
  roi_compno :: int
  subsampling_dx :: int
  subsampling_dy :: int
  irreversible :: int
  tcp_rates_0 :: fp
  tcp_numlayers :: int
  cp_disto_alloc :: int
  cp_rsiz :: opj_rsiz
  cp_comment :: string
  cp_cinema :: opj_cinema_mode
  tcp_mct :: int
  max_comp_size :: int

text \<open>\<^verbatim>\<open>int const max_cs_len = ((float) _j2k_bandwidth) / 8 / _frames_per_second;\<close>\<close>

definition max_cs_len :: "dcp_video_frame \<Rightarrow> int option" where
  "max_cs_len f =
     to_int (fp_div f32 (fp_div f32 (float_of_int (j2k_bandwidth f)) (float_of_int 8))
                        (float_of_int (frames_per_second f)))"

text \<open>\<^verbatim>\<open>int const max_comp_size = max_cs_len / 1.25;\<close> The literal is a \<^verbatim>\<open>double\<close>.\<close>

definition max_comp_size_of :: "int \<Rightarrow> int option" where
  "max_comp_size_of len = to_int (fp_div f64 (double_of_int len) (Finite (5 / 4)))"

text \<open>
  \<^verbatim>\<open>((float) (3 * w * h * prec)) / (max_cs_len * 8)\<close> with the width, height and
  precision (12) that \<^verbatim>\<open>create_openjpeg_container\<close> gave to the components.
\<close>

definition tcp_rate :: "frame_size \<Rightarrow> int \<Rightarrow> fp option" where
  "tcp_rate out len =
     (case Option.bind (Option.bind (int32 (3 * width out)) (\<lambda>a. int32 (a * height out)))
             (\<lambda>b. int32 (b * 12)) of
        None \<Rightarrow> None
      | Some bits \<Rightarrow>
          (case int32 (len * 8) of
             None \<Rightarrow> None
           | Some d \<Rightarrow> Some (fp_div f32 (float_of_int bits) (float_of_int d))))"

text \<open>The assignments to \<^verbatim>\<open>_parameters\<close>, in the order of the source, on the defaults \<open>d\<close>.\<close>

definition set_parameters :: "opj_cparameters \<Rightarrow> int \<Rightarrow> fp \<Rightarrow> opj_cparameters" where
  "set_parameters d comp_size rate =
     d\<lparr>tile_size_on := False, cp_tdx := 1, cp_tdy := 1,
       tp_flag := CHR ''C'', tp_on := 1,
       cp_tx0 := 0, cp_ty0 := 0, image_offset_x0 := 0, image_offset_y0 := 0,
       cblockw_init := 32, cblockh_init := 32, csty := csty d OR 1,
       prog_order := CPRL,
       roi_compno := - 1,
       subsampling_dx := 1, subsampling_dy := 1,
       irreversible := 1,
       tcp_numlayers := tcp_numlayers d + 1, cp_disto_alloc := 1,
       cp_rsiz := CINEMA2K, cp_comment := ''DVD-o-matic'', cp_cinema := CINEMA2K_24,
       tcp_mct := 1,
       max_comp_size := comp_size, tcp_rates_0 := rate\<rparr>"

definition make_parameters :: "opj_cparameters \<Rightarrow> dcp_video_frame \<Rightarrow> opj_cparameters option" where
  "make_parameters d f =
     (case max_cs_len f of
        None \<Rightarrow> None
      | Some len \<Rightarrow>
          (case max_comp_size_of len of
             None \<Rightarrow> None
           | Some comp_size \<Rightarrow>
               (case tcp_rate (out_size f) len of
                  None \<Rightarrow> None
                | Some rate \<Rightarrow> Some (set_parameters d comp_size rate))))"

subsection \<open>\<^verbatim>\<open>DCPVideoFrame::encode_locally\<close>\<close>

text \<open>
  What the function calls outside this file: the two \<^verbatim>\<open>Image\<close> methods, and
  libopenjpeg. \<open>opj_image_create\<close> tells whether the library returns a container (a
  non-null pointer) for the requested size; \<open>opj_encode\<close> gives the return code of the
  compression and the bytes of \<^verbatim>\<open>_cio->buffer\<close> up to \<^verbatim>\<open>cio_tell (_cio)\<close>.
\<close>

record environment =
  image_post_process :: "image \<Rightarrow> string \<Rightarrow> image"
  scale_and_convert_to_rgb :: "image \<Rightarrow> frame_size \<Rightarrow> int \<Rightarrow> scaler \<Rightarrow> image"
  opj_image_create :: "frame_size \<Rightarrow> bool"
  opj_set_default_encoder_parameters :: opj_cparameters
  opj_encode :: "opj_cparameters \<Rightarrow> frame_size \<Rightarrow> int list \<times> int list \<times> int list \<Rightarrow> int \<times> byte list"

definition prepare :: "environment \<Rightarrow> dcp_video_frame \<Rightarrow> image" where
  "prepare E f =
     (let prepared = (if post_process f \<noteq> [] then image_post_process E (input f) (post_process f)
                      else input f)
      in scale_and_convert_to_rgb E prepared (out_size f) (padding f) (frame_scaler f))"

text \<open>The second component of the result is the log.\<close>

definition encode_locally ::
  "luts \<Rightarrow> environment \<Rightarrow> dcp_video_frame \<Rightarrow> string list \<Rightarrow> encoded_data outcome \<times> string list" where
  "encode_locally T E f lg =
     (let prepared = prepare E f
      in if \<not> opj_image_create E (out_size f)
         then (Threw (EncodeError ''could not create libopenjpeg image''), lg)
         else
           (case int32 (width (out_size f) * height (out_size f)) of
              None \<Rightarrow> (Undefined, lg)
            | Some sz \<Rightarrow>
                (case convert T (colour_lut_index f) prepared sz of
                   None \<Rightarrow> (Undefined, lg)
                 | Some comps \<Rightarrow>
                     (case make_parameters (opj_set_default_encoder_parameters E) f of
                        None \<Rightarrow> (Undefined, lg)
                      | Some parameters \<Rightarrow>
                          (case opj_encode E parameters (out_size f) comps of
                             (r, buffer) \<Rightarrow>
                               if r = 0
                               then (Threw (EncodeError ''jpeg2000 encoding failed''), lg)
                               else (Returned \<lparr>ed_data = buffer, ed_size = int (length buffer),
                                                ed_owner = LocallyEncoded\<rparr>,
                                     lg @ [''Finished locally-encoded frame '' @ show_int (frame f)]))))))"

section \<open>Socket transport\<close>

text \<open>
  Modelled from the spec: the class \<^verbatim>\<open>Socket\<close>, whose declaration and member functions
  are missing here. A connection is the sequence \<open>incoming\<close> of bytes that the peer
  delivers before it closes the connection or the timeout expires, the bytes \<open>sent\<close> to
  the peer so far, and the number \<open>accepts\<close> of bytes that the peer still takes before a
  write fails.
\<close>

record socket =
  incoming :: "byte list"
  sent :: "byte list"
  accepts :: nat

text \<open>
  Modelled from the spec: \<^verbatim>\<open>Socket::write\<close>, missing with the class. Section 4.4 of the
  specification: a write sends all bytes or fails with NetworkError.
\<close>

definition socket_write :: "byte list \<Rightarrow> socket \<Rightarrow> error option \<times> socket" where
  "socket_write bs s =
     (if length bs \<le> accepts s
      then (None, s\<lparr>sent := sent s @ bs, accepts := accepts s - length bs\<rparr>)
      else (Some (NetworkError ''could not write''),
            s\<lparr>sent := sent s @ take (accepts s) bs, accepts := 0\<rparr>))"

text \<open>
  Modelled from the spec: \<^verbatim>\<open>Socket::read_indefinite\<close>, missing with the class. Section
  4.4: the indefinite read reads until the sentinel byte NUL is seen and fails with
  NetworkError on timeout or when the connection closes before completion. The read is
  into a buffer of \<open>n\<close> bytes, and the bytes stay in the socket until they are
  consumed. The result is the buffer up to and including the first NUL; when \<open>n\<close>
  bytes arrive without a NUL the buffer is full and holds no terminator.
\<close>

definition socket_read_indefinite :: "nat \<Rightarrow> socket \<Rightarrow> error + byte list" where
  "socket_read_indefinite n s =
     (let avail = take n (incoming s)
      in if NUL \<in> set avail then Inr (takeWhile (\<lambda>b. b \<noteq> NUL) avail @ [NUL])
         else if length avail = n then Inr avail
         else Inl (NetworkError ''could not read''))"

text \<open>
  Modelled from the spec: \<^verbatim>\<open>Socket::consume\<close>, missing with the class: it discards \<open>n\<close>
  bytes that an indefinite read has left in the socket.
\<close>

definition socket_consume :: "nat \<Rightarrow> socket \<Rightarrow> socket" where
  "socket_consume n s = s\<lparr>incoming := drop n (incoming s)\<rparr>"

text \<open>
  Modelled from the spec: \<^verbatim>\<open>Socket::read_definite_and_consume\<close>, missing with the class.
  Section 4.4: the definite read reads exactly N bytes and fails with NetworkError on
  timeout or when the connection closes before completion.
\<close>

definition socket_read_definite_and_consume :: "nat \<Rightarrow> socket \<Rightarrow> (error + byte list) \<times> socket" where
  "socket_read_definite_and_consume n s =
     (if n \<le> length (incoming s)
      then (Inr (take n (incoming s)), s\<lparr>incoming := drop n (incoming s)\<rparr>)
      else (Inl (NetworkError ''could not read''), s\<lparr>incoming := []\<rparr>))"

text \<open>
  Modelled from the spec: \<^verbatim>\<open>Socket::connect\<close>, missing with the class, and the Boost
  resolver. The resolver maps a host name and a service to an endpoint or throws; by
  section 4.4 the connect gives a connection to the endpoint or fails with NetworkError.
\<close>

record network =
  resolve :: "string \<Rightarrow> string \<Rightarrow> nat option"
  socket_connect :: "nat \<Rightarrow> socket option"

subsection \<open>The C library on the received header\<close>

text \<open>\<^verbatim>\<open>strlen\<close> on a buffer; undefined when the buffer holds no NUL.\<close>

definition strlen :: "byte list \<Rightarrow> nat option" where
  "strlen buf = (if NUL \<in> set buf then Some (length (takeWhile (\<lambda>b. b \<noteq> NUL) buf)) else None)"

definition is_space :: "char \<Rightarrow> bool" where
  "is_space c = (of_char c \<in> {32, 9, 10, 11, 12, 13 :: nat})"

definition is_digit :: "char \<Rightarrow> bool" where
  "is_digit c = (48 \<le> (of_char c :: nat) \<and> (of_char c :: nat) \<le> 57)"

fun atoi_digits :: "int \<Rightarrow> string \<Rightarrow> int" where
  "atoi_digits acc [] = acc"
| "atoi_digits acc (c # cs) =
     (if is_digit c then atoi_digits (acc * 10 + (int (of_char c) - 48)) cs else acc)"

text \<open>
  \<^verbatim>\<open>atoi\<close>: white space is skipped, an optional sign is read, then decimal digits up to
  the first other character; without digits the result is 0. The behaviour is undefined
  when the value is not an \<^verbatim>\<open>int\<close>.
\<close>

definition atoi :: "string \<Rightarrow> int option" where
  "atoi s =
     (case dropWhile is_space s of
        [] \<Rightarrow> Some 0
      | c # cs \<Rightarrow>
          if c = CHR ''-'' then int32 (- atoi_digits 0 cs)
          else if c = CHR ''+'' then int32 (atoi_digits 0 cs)
          else int32 (atoi_digits 0 (c # cs)))"

section \<open>Remote encoding\<close>

text \<open>The text that lines 307 to 322 put into the string stream.\<close>

definition request_header :: "config \<Rightarrow> dcp_video_frame \<Rightarrow> string" where
  "request_header cfg f =
     ''encode ''
     @ show_int (width (image_size (input f))) @ '' '' @ show_int (height (image_size (input f))) @ '' ''
     @ show_int (pixel_format (input f)) @ '' ''
     @ show_int (width (out_size f)) @ '' '' @ show_int (height (out_size f)) @ '' ''
     @ show_int (padding f) @ '' ''
     @ scaler_id (frame_scaler f) @ '' ''
     @ show_int (frame f) @ '' ''
     @ show_int (frames_per_second f) @ '' ''
     @ (if post_process f = [] then ''none'' else post_process f) @ '' ''
     @ show_int (config_colour_lut_index cfg) @ '' ''
     @ show_int (config_j2k_bandwidth cfg) @ '' ''
     @ concat (map (\<lambda>p. show_int (line_size p) @ '' '') (planes (input f)))"

text \<open>
  The \<^verbatim>\<open>line_size()[i] * lines(i)\<close> bytes of a plane that \<^verbatim>\<open>socket.write\<close> reads from
  \<^verbatim>\<open>data()[i]\<close>; undefined when the product overflows, is negative or exceeds the
  buffer.
\<close>

definition plane_bytes :: "plane \<Rightarrow> byte list option" where
  "plane_bytes p =
     (case int32 (line_size p * lines p) of
        None \<Rightarrow> None
      | Some n \<Rightarrow> if 0 \<le> n \<and> nat n \<le> length (plane_data p) then Some (take (nat n) (plane_data p))
                  else None)"

fun write_planes :: "plane list \<Rightarrow> socket \<Rightarrow> unit outcome \<times> socket" where
  "write_planes [] s = (Returned (), s)"
| "write_planes (p # ps) s =
     (case plane_bytes p of
        None \<Rightarrow> (Undefined, s)
      | Some bs \<Rightarrow>
          (case socket_write bs s of
             (Some e, s') \<Rightarrow> (Threw e, s')
           | (None, s') \<Rightarrow> write_planes ps s'))"

text \<open>Lines 307 to 328: the header with its terminating NUL, then the planes.\<close>

definition write_request :: "config \<Rightarrow> dcp_video_frame \<Rightarrow> socket \<Rightarrow> unit outcome \<times> socket" where
  "write_request cfg f s =
     (case socket_write (bytes_of (request_header cfg f) @ [NUL]) s of
        (Some e, s') \<Rightarrow> (Threw e, s')
      | (None, s') \<Rightarrow> write_planes (planes (input f)) s')"

text \<open>
  Lines 330 to 336: the length header is read into \<^verbatim>\<open>char buffer[32]\<close>, consumed
  together with its NUL, converted by \<^verbatim>\<open>atoi\<close>; \<^verbatim>\<open>new uint8_t[s]\<close> throws for a
  negative \<open>s\<close>; then the payload is read.
\<close>

definition read_response :: "socket \<Rightarrow> encoded_data outcome \<times> socket" where
  "read_response s =
     (case socket_read_indefinite 32 s of
        Inl e \<Rightarrow> (Threw e, s)
      | Inr buffer \<Rightarrow>
          (case strlen buffer of
             None \<Rightarrow> (Undefined, s)
           | Some n \<Rightarrow>
               (let s1 = socket_consume (n + 1) s
                in case atoi (chars_of buffer) of
                     None \<Rightarrow> (Undefined, s1)
                   | Some sz \<Rightarrow>
                       if sz < 0 then (Threw BadAlloc, s1)
                       else
                         (case socket_read_definite_and_consume (nat sz) s1 of
                            (Inl e, s2) \<Rightarrow> (Threw e, s2)
                          | (Inr bs, s2) \<Rightarrow>
                              (Returned \<lparr>ed_data = bs, ed_size = sz, ed_owner = RemotelyEncoded\<rparr>,
                               s2)))))"

text \<open>
  \<^verbatim>\<open>DCPVideoFrame::encode_remotely\<close>. The result is the outcome, the connection as the
  call leaves it (if one was made) and the log.
\<close>

definition encode_remotely ::
  "config \<Rightarrow> network \<Rightarrow> dcp_video_frame \<Rightarrow> server_description \<Rightarrow> string list
     \<Rightarrow> encoded_data outcome \<times> socket option \<times> string list" where
  "encode_remotely cfg net f serv lg =
     (case resolve net (host_name serv) (show_int (server_port cfg)) of
        None \<Rightarrow> (Threw SystemError, None, lg)
      | Some endpoint \<Rightarrow>
          (case socket_connect net endpoint of
             None \<Rightarrow> (Threw (NetworkError ''could not connect''), None, lg)
           | Some s \<Rightarrow>
               (case write_request cfg f s of
                  (Threw e, s1) \<Rightarrow> (Threw e, Some s1, lg)
                | (Undefined, s1) \<Rightarrow> (Undefined, Some s1, lg)
                | (Returned _, s1) \<Rightarrow>
                    (case read_response s1 of
                       (Returned e, s2) \<Rightarrow>
                         (Returned e, Some s2,
                          lg @ [''Finished remotely-encoded frame '' @ show_int (frame f)])
                     | (Threw e, s2) \<Rightarrow> (Threw e, Some s2, lg)
                     | (Undefined, s2) \<Rightarrow> (Undefined, Some s2, lg)))))"

section \<open>Encoded data\<close>

text \<open>
  \<^verbatim>\<open>EncodedData::send\<close>: \<^verbatim>\<open>_size\<close> in decimal with its NUL, then \<^verbatim>\<open>_size\<close> bytes of
  \<^verbatim>\<open>_data\<close> (undefined when the buffer is shorter).
\<close>

definition send :: "encoded_data \<Rightarrow> socket \<Rightarrow> unit outcome \<times> socket" where
  "send d s =
     (case socket_write (bytes_of (show_int (ed_size d)) @ [NUL]) s of
        (Some e, s1) \<Rightarrow> (Threw e, s1)
      | (None, s1) \<Rightarrow>
          if 0 \<le> ed_size d \<and> nat (ed_size d) \<le> length (ed_data d)
          then (case socket_write (take (nat (ed_size d)) (ed_data d)) s1 of
                  (Some e, s2) \<Rightarrow> (Threw e, s2)
                | (None, s2) \<Rightarrow> (Returned (), s2))
          else (Undefined, s1))"

text \<open>
  The file system as \<^verbatim>\<open>EncodedData::write\<close> meets it: the contents of the files,
  the \<^verbatim>\<open>errno\<close> with which \<^verbatim>\<open>fopen (path, "wb")\<close> fails for a path (if it fails), the
  number of bytes that can still be written before \<^verbatim>\<open>fwrite\<close> comes up short (the device
  is full), and the pairs of paths for which \<^verbatim>\<open>filesystem::rename\<close> throws.
  \<^verbatim>\<open>Options::frame_out_path (frame, tmp)\<close> is a parameter. \<^verbatim>\<open>EncodedData::write\<close>
  is \<open>EncodedData_write\<close> below.
\<close>

record filesystem =
  files :: "string \<Rightarrow> byte list option"
  fopen_errno :: "string \<Rightarrow> int option"
  free_space :: nat
  rename_fails :: "string \<Rightarrow> string \<Rightarrow> bool"

record options =
  frame_out_path :: "int \<Rightarrow> bool \<Rightarrow> string"

text \<open>\<^verbatim>\<open>fwrite (_data, 1, _size, f)\<close> on the file just opened; its result is not looked at.\<close>

definition fwrite :: "byte list \<Rightarrow> string \<Rightarrow> filesystem \<Rightarrow> filesystem" where
  "fwrite bs path fs =
     (let n = min (length bs) (free_space fs)
      in fs\<lparr>files := (files fs)(path \<mapsto> (case files fs path of None \<Rightarrow> [] | Some c \<Rightarrow> c) @ take n bs),
            free_space := free_space fs - n\<rparr>)"

definition rename :: "string \<Rightarrow> string \<Rightarrow> filesystem \<Rightarrow> filesystem" where
  "rename old new fs =
     (if old = new then fs else fs\<lparr>files := (files fs)(new := files fs old, old := None)\<rparr>)"

definition EncodedData_write :: "options \<Rightarrow> int \<Rightarrow> encoded_data \<Rightarrow> filesystem \<Rightarrow> unit outcome \<times> filesystem" where
  "EncodedData_write opt fr d fs =
     (let tmp_j2k = frame_out_path opt fr True
      in case fopen_errno fs tmp_j2k of
           Some e \<Rightarrow> (Threw (WriteFileError tmp_j2k e), fs)
         | None \<Rightarrow>
             (let fs1 = fs\<lparr>files := (files fs)(tmp_j2k \<mapsto> [])\<rparr>;
                  fs2 = fwrite (take (nat (ed_size d)) (ed_data d)) tmp_j2k fs1
              in if rename_fails fs2 tmp_j2k (frame_out_path opt fr False)
                 then (Threw SystemError, fs2)
                 else (Returned (), rename tmp_j2k (frame_out_path opt fr False) fs2)))"

section \<open>The specification's statements\<close>

subsection \<open>Colour transform pipeline, section 4.1\<close>

text \<open>
  The four steps in the words of the specification. Step 1: each 8-bit channel goes
  through the input gamma table that the LUT index selects, the byte shifted left 4 bits.
\<close>

definition spec_expand :: "luts \<Rightarrow> int \<Rightarrow> byte \<Rightarrow> fp option" where
  "spec_expand T k v =
     Option.bind (arr (lut_in T) k) (\<lambda>table. map_option Finite (arr table (uint v * 2 ^ 4)))"

text \<open>Step 2: the 3x3 matrix that the same LUT index selects, applied to the three values.\<close>

definition spec_dot :: "rat list \<Rightarrow> fp \<times> fp \<times> fp \<Rightarrow> fp option" where
  "spec_dot row v =
     (case v of (r, g, b) \<Rightarrow>
        Option.bind (arr row 0) (\<lambda>m0. Option.bind (arr row 1) (\<lambda>m1. Option.bind (arr row 2) (\<lambda>m2.
          Some (fp_add f64 (fp_add f64 (fp_mul f64 r (Finite m0)) (fp_mul f64 g (Finite m1)))
                  (fp_mul f64 b (Finite m2)))))))"

definition spec_matrix :: "luts \<Rightarrow> int \<Rightarrow> fp \<times> fp \<times> fp \<Rightarrow> (fp \<times> fp \<times> fp) option" where
  "spec_matrix T k v =
     Option.bind (arr (color_matrix T) k) (\<lambda>m.
       Option.bind (Option.bind (arr m 0) (\<lambda>row. spec_dot row v)) (\<lambda>x.
       Option.bind (Option.bind (arr m 1) (\<lambda>row. spec_dot row v)) (\<lambda>y.
       Option.bind (Option.bind (arr m 2) (\<lambda>row. spec_dot row v)) (\<lambda>z. Some (x, y, z)))))"

text \<open>Step 3: each of X, Y, Z times the device constant times (table size minus 1).\<close>

definition spec_compand :: "luts \<Rightarrow> fp \<Rightarrow> fp" where
  "spec_compand T c =
     fp_mul f64 (fp_mul f64 c (Finite (DCI_COEFFICENT T))) (f64 (of_int (DCI_LUT_SIZE T) - 1))"

text \<open>
  Step 4: the result, truncated toward zero, indexes the DCI output gamma table. An
  integer \<open>k\<close> is the truncation toward zero of \<open>x\<close> when it lies between 0 and \<open>x\<close>
  and less than 1 away from \<open>x\<close>.
\<close>

definition truncation_toward_zero :: "int \<Rightarrow> rat \<Rightarrow> bool" where
  "truncation_toward_zero k x =
     (\<bar>of_int k\<bar> \<le> \<bar>x\<bar> \<and> \<bar>x\<bar> < \<bar>of_int k\<bar> + 1 \<and> 0 \<le> of_int k * x)"

definition spec_quantize :: "luts \<Rightarrow> fp \<Rightarrow> int option" where
  "spec_quantize T c =
     (case c of
        Finite x \<Rightarrow>
          (let k = (if 0 \<le> x then \<lfloor>\<bar>x\<bar>\<rfloor> else - \<lfloor>\<bar>x\<bar>\<rfloor>)
           in if INT_MIN \<le> k \<and> k \<le> INT_MAX
              then Option.bind (arr (lut_out T) (LO_DCI T)) (\<lambda>table. arr table k)
              else None)
      | _ \<Rightarrow> None)"

definition spec_colour_transform ::
  "luts \<Rightarrow> int \<Rightarrow> byte \<Rightarrow> byte \<Rightarrow> byte \<Rightarrow> (int \<times> int \<times> int) option" where
  "spec_colour_transform T k r g b =
     Option.bind (spec_expand T k r) (\<lambda>sr.
     Option.bind (spec_expand T k g) (\<lambda>sg.
     Option.bind (spec_expand T k b) (\<lambda>sb.
     Option.bind (spec_matrix T k (sr, sg, sb)) (\<lambda>(x, y, z).
     Option.bind (spec_quantize T (spec_compand T x)) (\<lambda>qx.
     Option.bind (spec_quantize T (spec_compand T y)) (\<lambda>qy.
     Option.bind (spec_quantize T (spec_compand T z)) (\<lambda>qz. Some (qx, qy, qz))))))))"

subsection \<open>Remote encode request, section 6\<close>

text \<open>
  The fields of the header line in the order of the specification, for a LUT index and a
  bandwidth; the line as the specification words it, fields separated by single spaces
  and terminated by NUL; the raw bytes of the planes.
\<close>

definition request_fields :: "int \<Rightarrow> int \<Rightarrow> dcp_video_frame \<Rightarrow> string list" where
  "request_fields lut bw f =
     [''encode'',
      show_int (width (image_size (input f))), show_int (height (image_size (input f))),
      show_int (pixel_format (input f)),
      show_int (width (out_size f)), show_int (height (out_size f)),
      show_int (padding f),
      scaler_id (frame_scaler f),
      show_int (frame f),
      show_int (frames_per_second f),
      (if post_process f = [] then ''none'' else post_process f),
      show_int lut,
      show_int bw]
     @ map (\<lambda>p. show_int (line_size p)) (planes (input f))"

fun space_separated :: "string list \<Rightarrow> string" where
  "space_separated [] = []"
| "space_separated [x] = x"
| "space_separated (x # y # ys) = x @ '' '' @ space_separated (y # ys)"

definition raw_planes :: "image \<Rightarrow> byte list" where
  "raw_planes im = concat (map (\<lambda>p. take (nat (line_size p * lines p)) (plane_data p)) (planes im))"

definition spec_request :: "dcp_video_frame \<Rightarrow> byte list" where
  "spec_request f =
     bytes_of (space_separated (request_fields (colour_lut_index f) (j2k_bandwidth f) f))
     @ [NUL] @ raw_planes (input f)"

text \<open>The line in which every field, the last one too, is followed by one space.\<close>

definition space_terminated :: "string list \<Rightarrow> string" where
  "space_terminated xs = concat (map (\<lambda>x. x @ '' '') xs)"

subsection \<open>Length header of the response\<close>

text \<open>A decimal number: one or more decimal digits.\<close>

definition is_decimal_number :: "string \<Rightarrow> bool" where
  "is_decimal_number s = (s \<noteq> [] \<and> list_all is_digit s)"

text \<open>A header in which no digit follows the optional white space and the optional sign.\<close>

definition no_leading_digit :: "string \<Rightarrow> bool" where
  "no_leading_digit s =
     (case dropWhile is_space s of
        [] \<Rightarrow> True
      | c # cs \<Rightarrow>
          if c = CHR ''-'' \<or> c = CHR ''+'' then (case cs of [] \<Rightarrow> True | d # _ \<Rightarrow> \<not> is_digit d)
          else \<not> is_digit c)"

section \<open>Example data\<close>

definition example_image :: image where
  "example_image =
     \<lparr>image_size = \<lparr>width = 2, height = 1\<rparr>, pixel_format = 2,
      planes = [\<lparr>plane_data = [0, 1, 2, 2, 1, 0], line_size = 6, lines = 1\<rparr>]\<rparr>"

definition example_image_swapped :: image where
  "example_image_swapped =
     \<lparr>image_size = \<lparr>width = 2, height = 1\<rparr>, pixel_format = 2,
      planes = [\<lparr>plane_data = [2, 1, 0, 0, 1, 2], line_size = 6, lines = 1\<rparr>]\<rparr>"

text \<open>
  The job that the constructor builds from the example image for frame 7, with a frame
  rate, a LUT index and a bandwidth (see \<open>example_frame_constructed\<close> below).
\<close>

definition example_frame :: "rat \<Rightarrow> int \<Rightarrow> int \<Rightarrow> dcp_video_frame" where
  "example_frame fps clut bw =
     \<lparr>input = example_image, out_size = \<lparr>width = 2, height = 1\<rparr>, padding = 0,
      frame_scaler = \<lparr>scaler_id = ''bicubic''\<rparr>, frame = 7,
      frames_per_second = round_half_even fps, post_process = [],
      colour_lut_index = clut, j2k_bandwidth = bw\<rparr>"

definition example_luts :: luts where
  "example_luts =
     \<lparr>lut_in = [map (\<lambda>i. of_nat i / 32) [0 ..< 33]],
      color_matrix = [[[1 / 2, 1 / 4, 1 / 4], [1 / 4, 1 / 2, 1 / 4], [0, 1 / 4, 3 / 4]]],
      lut_out = [map (\<lambda>i. int i * int i) [0 ..< 16]],
      LO_DCI = 0,
      DCI_COEFFICENT = 1 / 2,
      DCI_LUT_SIZE = 16\<rparr>"

definition example_parameters :: opj_cparameters where
  "example_parameters =
     \<lparr>tile_size_on = False, cp_tdx = 0, cp_tdy = 0, tp_flag = CHR 0x00, tp_on = 0,
      cp_tx0 = 0, cp_ty0 = 0, image_offset_x0 = 0, image_offset_y0 = 0,
      cblockw_init = 64, cblockh_init = 64, csty = 0, prog_order = LRCP, roi_compno = - 1,
      subsampling_dx = 1, subsampling_dy = 1, irreversible = 0, tcp_rates_0 = Finite 0,
      tcp_numlayers = 0, cp_disto_alloc = 0, cp_rsiz = STD_RSIZ, cp_comment = [],
      cp_cinema = OFF, tcp_mct = 0, max_comp_size = 0\<rparr>"

definition example_environment :: "bool \<Rightarrow> int \<Rightarrow> environment" where
  "example_environment container r =
     \<lparr>image_post_process = (\<lambda>im pp. im),
      scale_and_convert_to_rgb = (\<lambda>im sz pad sc. im),
      opj_image_create = (\<lambda>sz. container),
      opj_set_default_encoder_parameters = example_parameters,
      opj_encode = (\<lambda>ps sz comps. (r, [255, 79, 255, 81]))\<rparr>"

definition example_config :: "int \<Rightarrow> int \<Rightarrow> config" where
  "example_config clut bw =
     \<lparr>server_port = 6192, config_colour_lut_index = clut, config_j2k_bandwidth = bw\<rparr>"

definition example_socket :: "byte list \<Rightarrow> socket" where
  "example_socket response = \<lparr>incoming = response, sent = [], accepts = 100\<rparr>"

definition example_network :: "byte list \<Rightarrow> network" where
  "example_network response =
     \<lparr>resolve = (\<lambda>host service. Some 0), socket_connect = (\<lambda>endpoint. Some (example_socket response))\<rparr>"

definition example_encoded :: encoded_data where
  "example_encoded = \<lparr>ed_data = [1, 2, 3, 4, 5], ed_size = 5, ed_owner = LocallyEncoded\<rparr>"

definition example_options :: options where
  "example_options =
     \<lparr>frame_out_path = (\<lambda>fr tmp. show_int fr @ (if tmp then ''.j2c.tmp'' else ''.j2c''))\<rparr>"

definition example_filesystem :: "nat \<Rightarrow> filesystem" where
  "example_filesystem space =
     \<lparr>files = Map.empty, fopen_errno = (\<lambda>path. None), free_space = space,
      rename_fails = (\<lambda>old new. False)\<rparr>"

section \<open>Properties of the floating-point model\<close>

lemma pow2_powi: "pow2 e = 2 powi e"
  by (simp add: pow2_def power_int_def inverse_eq_divide power_one_over)

lemma pow2_pos: "0 < pow2 e"
  by (simp add: pow2_powi)

lemma pow2_mono: "a \<le> b \<Longrightarrow> pow2 a \<le> pow2 b"
  by (simp add: pow2_powi power_int_increasing)

lemma pow2_less_imp: "pow2 a < pow2 b \<Longrightarrow> a < b"
  using pow2_mono [of b a] by (cases "a < b") auto

lemma pow2_nat: "pow2 (int n) = 2 ^ n"
  by (simp add: pow2_def)

lemma pow2_neg_mult: "e \<le> 0 \<Longrightarrow> pow2 e * 2 ^ nat (- e) = 1"
  by (cases "e = 0") (simp_all add: pow2_def)

lemma round_half_even_of_int: "round_half_even (of_int k) = k"
  by (simp add: round_half_even_def)

lemma round_half_even_error: "\<bar>of_int (round_half_even t) - t\<bar> \<le> 1 / 2"
proof -
  have "of_int \<lfloor>t\<rfloor> \<le> t" "t < of_int \<lfloor>t\<rfloor> + 1"
    by linarith+
  then show ?thesis
    by (auto simp: round_half_even_def Let_def abs_le_iff)
qed

lemma ilog2_ge1:
  assumes "1 \<le> \<bar>x\<bar>"
  shows "0 \<le> ilog2 x" and "pow2 (ilog2 x) \<le> \<bar>x\<bar>"
proof -
  let ?n = "\<lfloor>\<bar>x\<bar>\<rfloor>"
  have n: "0 < ?n" using assms by simp
  have e: "ilog2 x = bitlen ?n - 1" using assms by (simp add: ilog2_def)
  have b1: "1 \<le> bitlen ?n"
    using n bitlen_eq_zero_iff [of ?n] bitlen_nonneg [of ?n] by linarith
  show "0 \<le> ilog2 x" using e b1 by simp
  have "2 ^ nat (bitlen ?n - 1) \<le> ?n" using bitlen_bounds [OF n] by simp
  then have "(of_int (2 ^ nat (bitlen ?n - 1)) :: rat) \<le> of_int ?n"
    by (simp only: of_int_le_iff)
  also have "\<dots> \<le> \<bar>x\<bar>" by simp
  finally show "pow2 (ilog2 x) \<le> \<bar>x\<bar>"
    using e b1 by (simp add: pow2_def)
qed

lemma ilog2_lt1:
  assumes "x \<noteq> 0" "\<bar>x\<bar> < 1"
  shows "ilog2 x < 0"
proof -
  let ?n = "\<lceil>1 / \<bar>x\<bar>\<rceil> - 1"
  have "1 < 1 / \<bar>x\<bar>" using assms by simp
  then have "1 < \<lceil>1 / \<bar>x\<bar>\<rceil>" by (simp add: less_ceiling_iff)
  then have "0 < ?n" by simp
  then have "1 \<le> bitlen ?n"
    using bitlen_eq_zero_iff [of ?n] bitlen_nonneg [of ?n] by linarith
  then show ?thesis using assms by (simp add: ilog2_def)
qed

lemma ilog2_upper:
  assumes "x \<noteq> 0" "\<bar>x\<bar> < pow2 (int k)"
  shows "ilog2 x < int k"
proof (cases "1 \<le> \<bar>x\<bar>")
  case True
  then have "pow2 (ilog2 x) < pow2 (int k)" using ilog2_ge1(2) [OF True] assms by linarith
  then show ?thesis by (rule pow2_less_imp)
next
  case False
  then have "ilog2 x < 0" using ilog2_lt1 assms by simp
  then show ?thesis by simp
qed

text \<open>The rounding error is at most half a unit in the last place.\<close>

lemma fround_error:
  assumes "x \<noteq> 0" "emin \<le> ilog2 x" "ilog2 x < emax"
  shows "\<exists>y. fround p emin emax x = Finite y \<and> \<bar>y - x\<bar> \<le> pow2 (ilog2 x - (int p - 1)) / 2"
proof -
  define u where "u = pow2 (ilog2 x - (int p - 1))"
  define m where "m = round_half_even (x / u)"
  have u: "0 < u" unfolding u_def by (rule pow2_pos)
  have e: "max (ilog2 x) emin = ilog2 x" using assms by simp
  have f: "fround p emin emax x = Finite (of_int m * u)"
    using assms by (simp add: fround_def e Let_def u_def m_def)
  have "\<bar>of_int m - x / u\<bar> \<le> 1 / 2" unfolding m_def by (rule round_half_even_error)
  then have "\<bar>of_int m - x / u\<bar> * u \<le> 1 / 2 * u"
    using u by (intro mult_right_mono) auto
  moreover have "\<bar>of_int m - x / u\<bar> * u = \<bar>(of_int m - x / u) * u\<bar>"
    using u by (simp add: abs_mult)
  moreover have "(of_int m - x / u) * u = of_int m * u - x"
    using u by (simp add: left_diff_distrib)
  ultimately have "\<bar>of_int m * u - x\<bar> \<le> u / 2" by simp
  with f show ?thesis unfolding u_def by blast
qed

text \<open>Integers below \<open>2 ^ p\<close> are representable.\<close>

lemma fround_of_int:
  assumes "\<bar>n\<bar> < 2 ^ p" "int p < emax" "emin \<le> 0"
  shows "fround p emin emax (of_int n) = Finite (of_int n)"
proof (cases "n = 0")
  case True
  then show ?thesis by (simp add: fround_def)
next
  case False
  define x where "x = (of_int n :: rat)"
  have ax: "\<bar>x\<bar> = of_int \<bar>n\<bar>" by (simp add: x_def)
  have "1 \<le> \<bar>n\<bar>" using False by simp
  then have x1: "1 \<le> \<bar>x\<bar>" unfolding ax by (simp only: of_int_1_le_iff)
  have x0: "x \<noteq> 0" using False by (simp add: x_def)
  have "(of_int \<bar>n\<bar> :: rat) < of_int (2 ^ p)" using assms(1) by (simp only: of_int_less_iff)
  then have "\<bar>x\<bar> < pow2 (int p)" by (simp add: ax pow2_nat)
  then have up: "ilog2 x < int p" using x0 ilog2_upper by simp
  have lo: "0 \<le> ilog2 x" using ilog2_ge1(1) [OF x1] .
  have e: "max (ilog2 x) emin = ilog2 x" using lo assms by simp
  define u where "u = pow2 (ilog2 x - (int p - 1))"
  define d where "d = nat (int p - 1 - ilog2 x)"
  have u: "u * 2 ^ d = 1"
    unfolding u_def d_def using pow2_neg_mult [of "ilog2 x - (int p - 1)"] up by simp
  have upos: "0 < u" unfolding u_def by (rule pow2_pos)
  have "x / u = x * 2 ^ d" using u upos by (simp add: field_simps)
  also have "\<dots> = of_int (n * 2 ^ d)" by (simp add: x_def)
  finally have m: "round_half_even (x / u) = n * 2 ^ d"
    by (simp only: round_half_even_of_int)
  have "of_int (n * 2 ^ d) * u = x * (u * 2 ^ d)"
    by (simp add: x_def)
  then have r: "of_int (n * 2 ^ d) * u = x" by (simp only: u mult_1_right)
  have "fround p emin emax x = Finite (of_int (round_half_even (x / u)) * u)"
    using x0 up assms by (simp add: fround_def e Let_def u_def)
  then show ?thesis by (simp only: m r) (simp add: x_def)
qed

lemma f64_of_int: "\<bar>n\<bar> < 2 ^ 53 \<Longrightarrow> f64 (of_int n) = Finite (of_int n)"
  unfolding f64_def by (rule fround_of_int) simp_all

lemma f32_of_int: "\<bar>n\<bar> < 2 ^ 24 \<Longrightarrow> f32 (of_int n) = Finite (of_int n)"
  unfolding f32_def by (rule fround_of_int) simp_all

lemma f64_near:
  assumes "x \<noteq> 0" "- 1 \<le> ilog2 x" "\<bar>x\<bar> < 2 ^ 31"
  shows "\<exists>y. f64 x = Finite y \<and> \<bar>y - x\<bar> \<le> 1 / 8"
proof -
  have "pow2 (int 31) = 2 ^ 31" by (rule pow2_nat)
  then have "\<bar>x\<bar> < pow2 (int 31)" using assms(3) by (simp only:)
  then have up: "ilog2 x < 31" using ilog2_upper [OF assms(1), of 31] by simp
  obtain y where y: "f64 x = Finite y" "\<bar>y - x\<bar> \<le> pow2 (ilog2 x - (int 53 - 1)) / 2"
    unfolding f64_def using fround_error [of x "- 1022" 1023 53] assms up by auto
  have "pow2 (ilog2 x - (int 53 - 1)) \<le> pow2 (- 22)" using up by (intro pow2_mono) simp
  also have "\<dots> \<le> 1 / 4" by (simp add: pow2_def)
  finally show ?thesis using y by auto
qed

lemma ilog2_four_fifths: "ilog2 (4 / 5) = - 1" "ilog2 (- (4 / 5)) = - 1"
  by code_simp+

lemma truncation_toward_zero_truncate: "truncation_toward_zero (truncate_toward_zero x) x"
proof (cases "0 \<le> x")
  case True
  have "of_int \<lfloor>x\<rfloor> \<le> x" "x < of_int \<lfloor>x\<rfloor> + 1" by linarith+
  moreover have "(0::rat) \<le> of_int \<lfloor>x\<rfloor>" using True by simp
  ultimately show ?thesis
    using True by (simp add: truncation_toward_zero_def truncate_toward_zero_def)
next
  case False
  have c: "x \<le> of_int \<lceil>x\<rceil>" "of_int \<lceil>x\<rceil> < x + 1" by linarith+
  have "\<lceil>x\<rceil> \<le> 0" using False by (simp add: ceiling_le_iff)
  then have n: "(of_int \<lceil>x\<rceil> :: rat) \<le> 0" by simp
  then have "0 \<le> of_int \<lceil>x\<rceil> * x" using False by (intro mult_nonpos_nonpos) auto
  then show ?thesis
    using False c n by (simp add: truncation_toward_zero_def truncate_toward_zero_def)
qed

text \<open>
  Dividing an \<^verbatim>\<open>int\<close> by 1.25 in \<^verbatim>\<open>double\<close> and truncating gives the truncation of the
  exact quotient: the rounding of the division never reaches the next integer.
\<close>

lemma max_comp_size_of_exact:
  assumes "int32 len = Some len"
  shows "max_comp_size_of len = Some (truncate_toward_zero (of_int len / (5 / 4)))"
proof -
  have rng: "INT_MIN \<le> len" "len \<le> INT_MAX"
    using assms by (auto simp: int32_def split: if_splits)
  then have small: "\<bar>len\<bar> < 2 ^ 53" by (simp add: INT_MIN_def INT_MAX_def)
  define x where "x = (of_int len / (5 / 4) :: rat)"
  have d: "fp_div f64 (double_of_int len) (Finite (5 / 4)) = f64 x"
    by (simp add: fp_div_def double_of_int_def f64_of_int [OF small] x_def)
  define k where "k = (4 * len) div 5"
  define r where "r = (4 * len) mod 5"
  have eq: "4 * len = 5 * k + r" by (simp add: k_def r_def)
  then have "(of_int (4 * len) :: rat) = of_int (5 * k + r)" by (simp only:)
  then have xk: "x = of_int k + of_int r / 5" by (simp add: x_def)
  have r: "0 \<le> r" "r < 5" by (simp_all add: r_def)
  have kb: "- (2 ^ 31) \<le> k" "k + 1 \<le> 2 ^ 31 - 1"
    using rng eq r by (auto simp: INT_MIN_def INT_MAX_def)
  have xb: "- (2 ^ 31) \<le> x" "x < 2 ^ 31"
    using rng by (simp_all add: x_def INT_MIN_def INT_MAX_def field_simps)
  show ?thesis
  proof (cases "r = 0")
    case True
    then have "x = of_int k" using xk by simp
    moreover have "\<bar>k\<bar> < 2 ^ 53" using kb by simp
    moreover have "int32 k = Some k" using kb by (simp add: int32_def INT_MIN_def INT_MAX_def)
    ultimately show ?thesis
      unfolding max_comp_size_of_def d x_def [symmetric]
      by (simp add: f64_of_int to_int_def truncate_toward_zero_def)
  next
    case False
    then have r1: "1 \<le> r" "r \<le> 4" using r by simp_all
    have lo: "of_int k + 1 / 5 \<le> x" and hi: "x \<le> of_int k + 4 / 5"
      using r1 by (simp_all add: xk)
    have x0: "x \<noteq> 0"
    proof
      assume "x = 0"
      then have "len = 0" by (simp add: x_def)
      then show False using False by (simp add: r_def)
    qed
    have il: "- 1 \<le> ilog2 x"
    proof (cases "1 \<le> \<bar>x\<bar>")
      case True
      then show ?thesis using ilog2_ge1(1) [OF True] by simp
    next
      case False
      then have "\<bar>of_int len :: rat\<bar> < 5 / 4" by (simp add: x_def)
      then have "(of_int \<bar>len\<bar> :: rat) < of_int 2" by simp
      then have "\<bar>len\<bar> < 2" by (simp only: of_int_less_iff)
      then have "len = 1 \<or> len = - 1" using x0 by (auto simp: x_def)
      then show ?thesis by (auto simp: x_def ilog2_four_fifths)
    qed
    have "(of_int (- (2 ^ 31)) :: rat) \<le> of_int k" using kb(1) by (simp only: of_int_le_iff)
    then have ax: "\<bar>x\<bar> < 2 ^ 31" using xb lo by (simp add: abs_less_iff)
    obtain y where y: "f64 x = Finite y" "\<bar>y - x\<bar> \<le> 1 / 8"
      using f64_near [OF x0 il ax] by blast
    have yk: "of_int k < y" "y < of_int k + 1" using y(2) lo hi by linarith+
    have fy: "\<lfloor>y\<rfloor> = k" using yk by (simp add: floor_unique)
    have cy: "\<lceil>y\<rceil> = k + 1" using yk by (simp add: ceiling_unique)
    have fx: "\<lfloor>x\<rfloor> = k" using lo hi by (intro floor_unique) auto
    have cx: "\<lceil>x\<rceil> = k + 1" using lo hi by (intro ceiling_unique) auto
    have sg: "(0 \<le> y) = (0 \<le> x)"
    proof (cases "0 \<le> k")
      case True
      then have "(0::rat) \<le> of_int k" by simp
      then show ?thesis using yk lo by auto
    next
      case False
      then have "k + 1 \<le> 0" by simp
      then have "(of_int (k + 1) :: rat) \<le> 0" by (simp only: of_int_le_0_iff)
      then show ?thesis using yk hi by auto
    qed
    have t: "truncate_toward_zero y = truncate_toward_zero x"
      by (simp add: truncate_toward_zero_def sg fy cy fx cx)
    have "INT_MIN \<le> k" "k + 1 \<le> INT_MAX"
      using kb by (simp_all add: INT_MIN_def INT_MAX_def)
    then have "int32 (truncate_toward_zero x) = Some (truncate_toward_zero x)"
      by (auto simp: int32_def truncate_toward_zero_def fx cx)
    then show ?thesis
      unfolding max_comp_size_of_def d x_def [symmetric]
      by (simp add: y to_int_def t)
  qed
qed

lemma to_int_Some: "to_int a = Some k \<Longrightarrow> \<exists>q. a = Finite q \<and> truncation_toward_zero k q"
  by (cases a) (auto simp: to_int_def int32_def truncation_toward_zero_truncate split: if_splits)

lemma fp_div_by_zero: "fp_div rnd a (Finite 0) \<in> {PInf, NInf, NaN}"
  by (cases a) (simp_all add: fp_div_def)

lemma float_of_int_0: "float_of_int 0 = Finite 0"
  by (simp add: float_of_int_def f32_def fround_def)

lemma max_cs_len_zero_rate: "frames_per_second f = 0 \<Longrightarrow> max_cs_len f = None"
  using fp_div_by_zero [of f32 "fp_div f32 (float_of_int (j2k_bandwidth f)) (float_of_int 8)"]
  by (auto simp: max_cs_len_def float_of_int_0 to_int_def)

lemma make_parameters_Some:
  "make_parameters d f = Some ps \<Longrightarrow>
     \<exists>len. max_cs_len f = Some len \<and> max_comp_size_of len = Some (max_comp_size ps)"
  by (auto simp: make_parameters_def set_parameters_def split: option.splits)

section \<open>Colour transform\<close>

text \<open>The pixel function of the source is the pipeline of the specification.\<close>

lemma arr_Some: "arr xs i = Some v \<longleftrightarrow> 0 \<le> i \<and> i < int (length xs) \<and> v = xs ! nat i"
  by (auto simp: arr_def)

lemma spec_expand_eq: "spec_expand T k v = in_gamma T k v"
  by (simp add: spec_expand_def in_gamma_def push_bit_eq_mult mult.commute split: option.splits)

lemma spec_dot_eq:
  "Option.bind (arr m i) (\<lambda>row. spec_dot row (sr, sg, sb)) =
     (case arr m i of None \<Rightarrow> None
      | Some row \<Rightarrow>
         (case (map_option Finite (arr row 0), map_option Finite (arr row 1), map_option Finite (arr row 2)) of
            (Some m0, Some m1, Some m2) \<Rightarrow>
               Some (fp_add f64 (fp_add f64 (fp_mul f64 sr m0) (fp_mul f64 sg m1)) (fp_mul f64 sb m2))
          | _ \<Rightarrow> None))"
  by (simp add: spec_dot_def split: option.splits)

lemma spec_matrix_eq:
  "spec_matrix T k (sr, sg, sb) =
     (case (matrix_row T k 0 sr sg sb, matrix_row T k 1 sr sg sb, matrix_row T k 2 sr sg sb) of
        (Some dx, Some dy, Some dz) \<Rightarrow> Some (dx, dy, dz)
      | _ \<Rightarrow> None)"
  by (simp add: spec_matrix_def matrix_row_def matrix_entry_def spec_dot_eq split: option.splits)

lemma spec_compand_eq: "spec_compand T c = dci_companding T c"
  by (simp add: spec_compand_def dci_companding_def double_of_int_def)

lemma spec_quantize_eq: "spec_quantize T c = out_gamma T c"
proof (cases c)
  case (Finite x)
  have "(if 0 \<le> x then \<lfloor>\<bar>x\<bar>\<rfloor> else - \<lfloor>\<bar>x\<bar>\<rfloor>) = truncate_toward_zero x"
    by (simp add: truncate_toward_zero_def ceiling_def)
  then show ?thesis
    using Finite
    by (simp add: spec_quantize_def out_gamma_def to_int_def int32_def Let_def split: option.splits)
qed (simp_all add: spec_quantize_def out_gamma_def to_int_def)

lemma spec_colour_transform_eq: "spec_colour_transform T k r g b = rgb_to_xyz T k r g b"
  by (simp add: spec_colour_transform_def rgb_to_xyz_def xyz_companded_def spec_expand_eq
      spec_matrix_eq spec_compand_eq spec_quantize_eq split: option.splits)

text \<open>
  The loop: what it has written so far stays, and sample \<open>j\<close> of the three components
  comes from the bytes \<open>3 j\<close>, \<open>3 j + 1\<close>, \<open>3 j + 2\<close> that are left to read.
\<close>

declare convert_loop.simps [simp del]

lemma convert_loop_Some:
  assumes "convert_loop T clut p i n (cx, cy, cz) = Some (cx', cy', cz')"
    and "length cx = n" "length cy = n" "length cz = n"
  shows "length cx' = n \<and> length cy' = n \<and> length cz' = n \<and> 3 * (n - i) \<le> length p
         \<and> (\<forall>j<i. cx' ! j = cx ! j \<and> cy' ! j = cy ! j \<and> cz' ! j = cz ! j)
         \<and> (\<forall>j. i \<le> j \<and> j < n \<longrightarrow>
               rgb_to_xyz T clut (p ! (3 * (j - i))) (p ! (3 * (j - i) + 1)) (p ! (3 * (j - i) + 2))
                 = Some (cx' ! j, cy' ! j, cz' ! j))"
  using assms
proof (induction T clut p i n "(cx, cy, cz)" arbitrary: cx cy cz rule: convert_loop.induct)
  case (1 T clut p i n cx cy cz)
  show ?case
  proof (cases "i < n")
    case False
    then show ?thesis
      using "1.prems" by (auto simp add: convert_loop.simps)
  next
    case True
    with "1.prems"(1) obtain r g b p' x y z where
      p: "p = r # g # b # p'" and
      px: "rgb_to_xyz T clut r g b = Some (x, y, z)" and
      rec: "convert_loop T clut p' (Suc i) n (cx[i := x], cy[i := y], cz[i := z]) = Some (cx', cy', cz')"
      by (subst (asm) convert_loop.simps) (auto split: list.splits option.splits)
    have IH: "length cx' = n \<and> length cy' = n \<and> length cz' = n \<and> 3 * (n - Suc i) \<le> length p'
         \<and> (\<forall>j<Suc i. cx' ! j = cx[i := x] ! j \<and> cy' ! j = cy[i := y] ! j \<and> cz' ! j = cz[i := z] ! j)
         \<and> (\<forall>j. Suc i \<le> j \<and> j < n \<longrightarrow>
               rgb_to_xyz T clut (p' ! (3 * (j - Suc i))) (p' ! (3 * (j - Suc i) + 1)) (p' ! (3 * (j - Suc i) + 2))
                 = Some (cx' ! j, cy' ! j, cz' ! j))"
      using "1.hyps" [OF True p refl refl px refl refl rec] "1.prems"(2-4) by simp
    have "3 * (n - Suc i) \<le> length p'" using IH by blast
    then have len: "3 * (n - i) \<le> length p" using True by (simp add: p)
    have old: "\<forall>j<i. cx' ! j = cx ! j \<and> cy' ! j = cy ! j \<and> cz' ! j = cz ! j"
      using IH by auto
    have new: "rgb_to_xyz T clut (p ! (3 * (j - i))) (p ! (3 * (j - i) + 1)) (p ! (3 * (j - i) + 2))
                 = Some (cx' ! j, cy' ! j, cz' ! j)" if j: "i \<le> j" "j < n" for j
    proof (cases "j = i")
      case True
      have "cx' ! i = x" "cy' ! i = y" "cz' ! i = z"
        using IH "1.prems"(2-4) \<open>i < n\<close> by auto
      then show ?thesis using True px by (simp add: p)
    next
      case False
      then have s: "Suc i \<le> j" using j by simp
      then obtain d where d: "j - i = Suc d" "j - Suc i = d"
        by (metis Suc_diff_le diff_Suc_Suc)
      have "rgb_to_xyz T clut (p' ! (3 * d)) (p' ! (3 * d + 1)) (p' ! (3 * d + 2))
                 = Some (cx' ! j, cy' ! j, cz' ! j)"
        using IH s j d by auto
      then show ?thesis by (simp add: p d)
    qed
    show ?thesis using IH len old new by blast
  qed
qed

lemma convert_loop_defined:
  assumes "3 * (n - i) \<le> length p"
    and "\<forall>j<n - i. rgb_to_xyz T clut (p ! (3 * j)) (p ! (3 * j + 1)) (p ! (3 * j + 2)) \<noteq> None"
  shows "convert_loop T clut p i n (cx, cy, cz) \<noteq> None"
  using assms
proof (induction T clut p i n "(cx, cy, cz)" arbitrary: cx cy cz rule: convert_loop.induct)
  case (1 T clut p i n cx cy cz)
  show ?case
  proof (cases "i < n")
    case False
    then show ?thesis by (simp add: convert_loop.simps)
  next
    case True
    then have "3 \<le> length p" using "1.prems"(1) by simp
    then obtain r g b p' where p: "p = r # g # b # p'"
      by (cases p rule: list.exhaust [case_product list.exhaust]) (auto simp: Suc_le_length_iff numeral_3_eq_3)
    have "rgb_to_xyz T clut (p ! (3 * 0)) (p ! (3 * 0 + 1)) (p ! (3 * 0 + 2)) \<noteq> None"
      using "1.prems"(2) True by (metis zero_less_diff)
    then obtain x y z where px: "rgb_to_xyz T clut r g b = Some (x, y, z)"
      by (auto simp: p)
    have l: "3 * (n - Suc i) \<le> length p'" using "1.prems"(1) True by (simp add: p)
    have d: "\<forall>j<n - Suc i. rgb_to_xyz T clut (p' ! (3 * j)) (p' ! (3 * j + 1)) (p' ! (3 * j + 2)) \<noteq> None"
    proof (intro allI impI)
      fix j assume "j < n - Suc i"
      then have "Suc j < n - i" by simp
      then have "rgb_to_xyz T clut (p ! (3 * Suc j)) (p ! (3 * Suc j + 1)) (p ! (3 * Suc j + 2)) \<noteq> None"
        using "1.prems"(2) by blast
      then show "rgb_to_xyz T clut (p' ! (3 * j)) (p' ! (3 * j + 1)) (p' ! (3 * j + 2)) \<noteq> None"
        by (simp add: p)
    qed
    have "convert_loop T clut p' (Suc i) n (cx[i := x], cy[i := y], cz[i := z]) \<noteq> None"
      using "1.hyps" [OF True p refl refl px refl refl l d] .
    then show ?thesis
      using True px by (subst convert_loop.simps) (simp add: p)
  qed
qed

lemma truncation_toward_zero_unique:
  assumes "truncation_toward_zero k x"
  shows "k = truncate_toward_zero x"
proof -
  have a: "\<bar>of_int k\<bar> \<le> \<bar>x\<bar>" "\<bar>x\<bar> < \<bar>of_int k\<bar> + 1" "0 \<le> of_int k * x"
    using assms by (simp_all add: truncation_toward_zero_def)
  show ?thesis
  proof (cases "0 \<le> x")
    case True
    have "0 \<le> k"
    proof (rule ccontr)
      assume "\<not> 0 \<le> k"
      then have k: "(of_int k :: rat) < 0" by simp
      then have "0 < x" using a(1) True by auto
      then have "of_int k * x < 0" using k by (simp add: mult_neg_pos)
      then show False using a(3) by simp
    qed
    then have "(0::rat) \<le> of_int k" by simp
    then have "of_int k \<le> x" "x < of_int k + 1" using a True by auto
    then have "\<lfloor>x\<rfloor> = k" by (intro floor_unique)
    then show ?thesis using True by (simp add: truncate_toward_zero_def)
  next
    case False
    have "k \<le> 0"
    proof (rule ccontr)
      assume "\<not> k \<le> 0"
      then have k: "(0::rat) < of_int k" by simp
      then have "of_int k * x < 0" using False by (simp add: mult_pos_neg)
      then show False using a(3) by simp
    qed
    then have "(of_int k :: rat) \<le> 0" by simp
    then have "of_int k - 1 < x" "x \<le> of_int k" using a False by auto
    then have "\<lceil>x\<rceil> = k" by (intro ceiling_unique)
    then show ?thesis using False by (simp add: truncate_toward_zero_def)
  qed
qed

lemma out_gamma_Some:
  assumes "out_gamma T d = Some v"
  shows "\<exists>q k row. d = Finite q \<and> truncation_toward_zero k q
           \<and> arr (lut_out T) (LO_DCI T) = Some row \<and> arr row k = Some v \<and> v \<in> set row"
proof -
  obtain k row where k: "to_int d = Some k" and row: "arr (lut_out T) (LO_DCI T) = Some row"
    and v: "arr row k = Some v"
    using assms by (auto simp: out_gamma_def split: option.splits)
  obtain q where q: "d = Finite q" "k = truncate_toward_zero q"
    using k by (cases d) (auto simp: to_int_def int32_def split: if_splits)
  have "v \<in> set row" using v by (auto simp: arr_def split: if_splits)
  then show ?thesis
    using q row v truncation_toward_zero_truncate by blast
qed

lemma rgb_to_xyz_Some:
  assumes "rgb_to_xyz T clut r g b = Some (x, y, z)"
  shows "\<exists>dx dy dz. xyz_companded T clut r g b = Some (dx, dy, dz)
           \<and> out_gamma T dx = Some x \<and> out_gamma T dy = Some y \<and> out_gamma T dz = Some z"
  using assms by (auto simp: rgb_to_xyz_def split: option.splits)

lemma convert_pixel:
  assumes "convert T clut im sz = Some (cx, cy, cz)" "planes im = p # ps" "i < nat sz"
  shows "rgb_to_xyz T clut (plane_data p ! (3 * i)) (plane_data p ! (3 * i + 1)) (plane_data p ! (3 * i + 2))
           = Some (cx ! i, cy ! i, cz ! i)"
proof -
  have "convert_loop T clut (plane_data p) 0 (nat sz)
          (replicate (nat sz) 0, replicate (nat sz) 0, replicate (nat sz) 0) = Some (cx, cy, cz)"
    using assms(1,2) by (simp add: convert_def)
  from convert_loop_Some [OF this] assms(3) show ?thesis by simp
qed

lemma convert_example:
  "convert example_luts 0 example_image 2 = Some ([4, 16], [9, 9], [36, 0])"
  by code_simp

text \<open>
  Claim C1. The loop of \<^verbatim>\<open>encode_locally\<close> returns the three components exactly when
  the first plane of the prepared image holds three bytes for each of the \<open>sz\<close> pixels and
  the pipeline of the specification (input gamma table at the byte shifted left 4 bits,
  matrix of the same LUT index, multiplication by the DCI constant and by the table size
  minus 1, truncation toward zero as index of the DCI output gamma table) is defined on
  every pixel; then each component holds one scalar per pixel, the one that the pipeline
  gives for the bytes of that pixel.
\<close>

theorem colour_transform_of_every_pixel:
  "convert T clut prepared sz = Some (cx, cy, cz) \<longleftrightarrow>
     (\<exists>p ps. planes prepared = p # ps \<and> 3 * nat sz \<le> length (plane_data p)
        \<and> length cx = nat sz \<and> length cy = nat sz \<and> length cz = nat sz
        \<and> (\<forall>i<nat sz.
              spec_colour_transform T clut (plane_data p ! (3 * i)) (plane_data p ! (3 * i + 1))
                  (plane_data p ! (3 * i + 2))
                = Some (cx ! i, cy ! i, cz ! i)))"
proof
  assume c: "convert T clut prepared sz = Some (cx, cy, cz)"
  then obtain p ps where p: "planes prepared = p # ps"
    by (cases "planes prepared") (auto simp: convert_def)
  have "convert_loop T clut (plane_data p) 0 (nat sz)
          (replicate (nat sz) 0, replicate (nat sz) 0, replicate (nat sz) 0) = Some (cx, cy, cz)"
    using c p by (simp add: convert_def)
  from convert_loop_Some [OF this] p show
    "\<exists>p ps. planes prepared = p # ps \<and> 3 * nat sz \<le> length (plane_data p)
        \<and> length cx = nat sz \<and> length cy = nat sz \<and> length cz = nat sz
        \<and> (\<forall>i<nat sz.
              spec_colour_transform T clut (plane_data p ! (3 * i)) (plane_data p ! (3 * i + 1))
                  (plane_data p ! (3 * i + 2))
                = Some (cx ! i, cy ! i, cz ! i))"
    by (simp add: spec_colour_transform_eq)
next
  assume "\<exists>p ps. planes prepared = p # ps \<and> 3 * nat sz \<le> length (plane_data p)
        \<and> length cx = nat sz \<and> length cy = nat sz \<and> length cz = nat sz
        \<and> (\<forall>i<nat sz.
              spec_colour_transform T clut (plane_data p ! (3 * i)) (plane_data p ! (3 * i + 1))
                  (plane_data p ! (3 * i + 2))
                = Some (cx ! i, cy ! i, cz ! i))"
  then obtain p ps where p: "planes prepared = p # ps"
    and len: "3 * nat sz \<le> length (plane_data p)"
    and l: "length cx = nat sz" "length cy = nat sz" "length cz = nat sz"
    and px: "\<forall>i<nat sz. rgb_to_xyz T clut (plane_data p ! (3 * i)) (plane_data p ! (3 * i + 1))
                  (plane_data p ! (3 * i + 2)) = Some (cx ! i, cy ! i, cz ! i)"
    by (auto simp: spec_colour_transform_eq)
  have "convert_loop T clut (plane_data p) 0 (nat sz)
          (replicate (nat sz) 0, replicate (nat sz) 0, replicate (nat sz) 0) \<noteq> None"
    using len px by (intro convert_loop_defined) auto
  then obtain cx' cy' cz' where r: "convert T clut prepared sz = Some (cx', cy', cz')"
    using p by (auto simp: convert_def)
  have "length cx' = nat sz" "length cy' = nat sz" "length cz' = nat sz"
    using r p convert_loop_Some [of T clut "plane_data p" 0 "nat sz" _ _ _ cx' cy' cz']
    by (simp_all add: convert_def)
  moreover have "cx' ! i = cx ! i \<and> cy' ! i = cy ! i \<and> cz' ! i = cz ! i" if "i < nat sz" for i
    using convert_pixel [OF r p that] px that by simp
  ultimately have "cx' = cx" "cy' = cy" "cz' = cz"
    using l by (auto intro: nth_equalityI)
  then show "convert T clut prepared sz = Some (cx, cy, cz)" using r by simp
qed

theorem colour_transform_of_every_pixel_witness:
  "convert example_luts 0 example_image 2 = Some ([4, 16], [9, 9], [36, 0])
   \<and> spec_colour_transform example_luts 0 0 1 2 = Some (4, 9, 36)
   \<and> spec_colour_transform example_luts 0 2 1 0 = Some (16, 9, 0)"
proof -
  note h = convert_example
  have pl: "planes example_image = [\<lparr>plane_data = [0, 1, 2, 2, 1, 0], line_size = 6, lines = 1\<rparr>]"
    by (simp add: example_image_def)
  from colour_transform_of_every_pixel [THEN iffD1, OF h]
  have px: "\<forall>i<nat 2.
      spec_colour_transform example_luts 0 ([0, 1, 2, 2, 1, 0] ! (3 * i)) ([0, 1, 2, 2, 1, 0] ! (3 * i + 1))
          ([0, 1, 2, 2, 1, 0] ! (3 * i + 2))
        = Some ([4, 16] ! i, [9, 9] ! i, [36, 0] ! i)"
    by (simp add: pl)
  have "spec_colour_transform example_luts 0 0 1 2 = Some (4, 9, 36)"
    using px [rule_format, of 0] by simp
  moreover have "spec_colour_transform example_luts 0 2 1 0 = Some (16, 9, 0)"
    using px [rule_format, of 1] by simp
  ultimately show ?thesis using h by simp
qed

text \<open>
  Claim C2. Two evaluations of the pipeline with the same tables and LUT index, in any
  two runs of the loop over any two images and at any two pixel positions, give the same
  XYZ triple when the three bytes of the pixels are the same. The samples are the entries
  of the DCI output gamma table at the truncations toward zero of the three companded
  values, which are finite.
\<close>

theorem colour_transform_deterministic:
  assumes "convert T clut im1 sz1 = Some (x1, y1, z1)"
    and "convert T clut im2 sz2 = Some (x2, y2, z2)"
    and "planes im1 = p1 # ps1" and "planes im2 = p2 # ps2"
    and "i < nat sz1" and "j < nat sz2"
    and "plane_data p1 ! (3 * i) = r \<and> plane_data p1 ! (3 * i + 1) = g \<and> plane_data p1 ! (3 * i + 2) = b"
    and "plane_data p2 ! (3 * j) = r \<and> plane_data p2 ! (3 * j + 1) = g \<and> plane_data p2 ! (3 * j + 2) = b"
  shows "(x1 ! i, y1 ! i, z1 ! i) = (x2 ! j, y2 ! j, z2 ! j)
         \<and> (\<exists>dx dy dz row kx ky kz.
               xyz_companded T clut r g b = Some (Finite dx, Finite dy, Finite dz)
               \<and> arr (lut_out T) (LO_DCI T) = Some row
               \<and> truncation_toward_zero kx dx \<and> arr row kx = Some (x1 ! i)
               \<and> truncation_toward_zero ky dy \<and> arr row ky = Some (y1 ! i)
               \<and> truncation_toward_zero kz dz \<and> arr row kz = Some (z1 ! i)
               \<and> x1 ! i \<in> set row \<and> y1 ! i \<in> set row \<and> z1 ! i \<in> set row)"
proof -
  have a: "rgb_to_xyz T clut r g b = Some (x1 ! i, y1 ! i, z1 ! i)"
    using convert_pixel [OF assms(1,3,5)] assms(7) by simp
  have b: "rgb_to_xyz T clut r g b = Some (x2 ! j, y2 ! j, z2 ! j)"
    using convert_pixel [OF assms(2,4,6)] assms(8) by simp
  from a b have e: "(x1 ! i, y1 ! i, z1 ! i) = (x2 ! j, y2 ! j, z2 ! j)" by simp
  obtain dx dy dz where d: "xyz_companded T clut r g b = Some (dx, dy, dz)"
    "out_gamma T dx = Some (x1 ! i)" "out_gamma T dy = Some (y1 ! i)" "out_gamma T dz = Some (z1 ! i)"
    using rgb_to_xyz_Some [OF a] by blast
  obtain qx kx row where x: "dx = Finite qx" "truncation_toward_zero kx qx"
    "arr (lut_out T) (LO_DCI T) = Some row" "arr row kx = Some (x1 ! i)" "x1 ! i \<in> set row"
    using out_gamma_Some [OF d(2)] by blast
  obtain qy ky row' where y: "dy = Finite qy" "truncation_toward_zero ky qy"
    "arr (lut_out T) (LO_DCI T) = Some row'" "arr row' ky = Some (y1 ! i)" "y1 ! i \<in> set row'"
    using out_gamma_Some [OF d(3)] by blast
  obtain qz kz row'' where z: "dz = Finite qz" "truncation_toward_zero kz qz"
    "arr (lut_out T) (LO_DCI T) = Some row''" "arr row'' kz = Some (z1 ! i)" "z1 ! i \<in> set row''"
    using out_gamma_Some [OF d(4)] by blast
  have rows: "row' = row" "row'' = row" using x(3) y(3) z(3) by simp_all
  have "xyz_companded T clut r g b = Some (Finite qx, Finite qy, Finite qz)"
    using d(1) x(1) y(1) z(1) by simp
  with e x y z rows show ?thesis by blast
qed

theorem colour_transform_deterministic_witness:
  "([4, 16 :: int] ! 0, [9, 9 :: int] ! 0, [36, 0 :: int] ! 0)
     = ([16, 4 :: int] ! 1, [9, 9 :: int] ! 1, [0, 36 :: int] ! 1)
   \<and> (\<exists>dx dy dz row kx ky kz.
         xyz_companded example_luts 0 0 1 2 = Some (Finite dx, Finite dy, Finite dz)
         \<and> arr (lut_out example_luts) (LO_DCI example_luts) = Some row
         \<and> truncation_toward_zero kx dx \<and> arr row kx = Some ([4, 16] ! 0)
         \<and> truncation_toward_zero ky dy \<and> arr row ky = Some ([9, 9] ! 0)
         \<and> truncation_toward_zero kz dz \<and> arr row kz = Some ([36, 0] ! 0)
         \<and> [4, 16] ! 0 \<in> set row \<and> [9, 9] ! 0 \<in> set row \<and> [36, 0] ! 0 \<in> set row)"
proof -
  note h1 = convert_example
  have h2: "convert example_luts 0 example_image_swapped 2 = Some ([16, 4], [9, 9], [0, 36])"
    by code_simp
  have p1: "planes example_image = \<lparr>plane_data = [0, 1, 2, 2, 1, 0], line_size = 6, lines = 1\<rparr> # []"
    by (simp add: example_image_def)
  have p2: "planes example_image_swapped = \<lparr>plane_data = [2, 1, 0, 0, 1, 2], line_size = 6, lines = 1\<rparr> # []"
    by (simp add: example_image_swapped_def)
  have i: "0 < nat 2" and j: "1 < nat 2"
    by simp_all
  have b1: "plane_data \<lparr>plane_data = [0, 1, 2, 2, 1, 0], line_size = 6, lines = 1\<rparr> ! (3 * 0) = (0 :: byte)
      \<and> plane_data \<lparr>plane_data = [0, 1, 2, 2, 1, 0], line_size = 6, lines = 1\<rparr> ! (3 * 0 + 1) = (1 :: byte)
      \<and> plane_data \<lparr>plane_data = [0, 1, 2, 2, 1, 0], line_size = 6, lines = 1\<rparr> ! (3 * 0 + 2) = (2 :: byte)"
    by simp
  have b2: "plane_data \<lparr>plane_data = [2, 1, 0, 0, 1, 2], line_size = 6, lines = 1\<rparr> ! (3 * 1) = (0 :: byte)
      \<and> plane_data \<lparr>plane_data = [2, 1, 0, 0, 1, 2], line_size = 6, lines = 1\<rparr> ! (3 * 1 + 1) = (1 :: byte)
      \<and> plane_data \<lparr>plane_data = [2, 1, 0, 0, 1, 2], line_size = 6, lines = 1\<rparr> ! (3 * 1 + 2) = (2 :: byte)"
    by simp
  show ?thesis
    by (rule colour_transform_deterministic [OF h1 h2 p1 p2 i j b1 b2])
qed

section \<open>Codec parameters\<close>

text \<open>
  Claim C3, as the code has it. The maximal codestream length is the truncation toward
  zero of the quotient \<^verbatim>\<open>((float) bandwidth) / 8 / frame_rate\<close> computed in single
  precision; the maximal component size is the truncation toward zero of the exact
  quotient of that length by 1.25; the parameters that \<^verbatim>\<open>encode_locally\<close> hands to the
  codec carry this component size. For 24 frames per second and 125000000 bits per second
  the length is 651041 and the component size is 520832.
\<close>

theorem codec_parameters_derivation:
  "(max_cs_len f = Some len \<longrightarrow>
      (\<exists>q. fp_div f32 (fp_div f32 (float_of_int (j2k_bandwidth f)) (float_of_int 8))
             (float_of_int (frames_per_second f)) = Finite q
           \<and> truncation_toward_zero len q))
   \<and> (int32 len = Some len \<longrightarrow>
      (\<exists>c. max_comp_size_of len = Some c \<and> truncation_toward_zero c (of_int len / (5 / 4))))
   \<and> (make_parameters d f = Some ps \<longrightarrow>
      (\<exists>n. max_cs_len f = Some n \<and> max_comp_size_of n = Some (max_comp_size ps)))
   \<and> (j2k_bandwidth f = 125000000 \<and> frames_per_second f = 24 \<longrightarrow>
      max_cs_len f = Some 651041 \<and> max_comp_size_of 651041 = Some 520832)"
proof -
  have a: "max_cs_len f = Some len \<longrightarrow>
      (\<exists>q. fp_div f32 (fp_div f32 (float_of_int (j2k_bandwidth f)) (float_of_int 8))
             (float_of_int (frames_per_second f)) = Finite q
           \<and> truncation_toward_zero len q)"
    unfolding max_cs_len_def by (blast dest: to_int_Some)
  have b: "int32 len = Some len \<longrightarrow>
      (\<exists>c. max_comp_size_of len = Some c \<and> truncation_toward_zero c (of_int len / (5 / 4)))"
    using max_comp_size_of_exact [of len] truncation_toward_zero_truncate by blast
  have c: "make_parameters d f = Some ps \<longrightarrow>
      (\<exists>n. max_cs_len f = Some n \<and> max_comp_size_of n = Some (max_comp_size ps))"
    by (blast dest: make_parameters_Some)
  have k: "to_int (fp_div f32 (fp_div f32 (float_of_int 125000000) (float_of_int 8)) (float_of_int 24))
             = Some 651041"
    by code_simp
  have m: "max_comp_size_of 651041 = Some 520832"
    by code_simp
  have e: "j2k_bandwidth f = 125000000 \<and> frames_per_second f = 24 \<longrightarrow>
      max_cs_len f = Some 651041 \<and> max_comp_size_of 651041 = Some 520832"
    using k m by (simp add: max_cs_len_def)
  from a b c e show ?thesis by (intro conjI)
qed

theorem codec_parameters_derivation_witness:
  "(\<exists>q. fp_div f32 (fp_div f32 (float_of_int (j2k_bandwidth (example_frame 24 0 125000000)))
                      (float_of_int 8))
            (float_of_int (frames_per_second (example_frame 24 0 125000000))) = Finite q
        \<and> truncation_toward_zero 651041 q)
   \<and> (\<exists>c. max_comp_size_of 651041 = Some c
        \<and> truncation_toward_zero c (of_int 651041 / (5 / 4)))
   \<and> (\<exists>n. max_cs_len (example_frame 24 0 125000000) = Some n
        \<and> max_comp_size_of n
            = Some (max_comp_size (set_parameters example_parameters 520832
                      (fp_div f32 (float_of_int 72) (float_of_int 5208328)))))
   \<and> max_cs_len (example_frame 24 0 125000000) = Some 651041
   \<and> max_comp_size_of 651041 = Some 520832"
proof -
  have h1: "max_cs_len (example_frame 24 0 125000000) = Some 651041"
    by code_simp
  have h2: "int32 651041 = Some 651041"
    by code_simp
  have h3: "make_parameters example_parameters (example_frame 24 0 125000000)
              = Some (set_parameters example_parameters 520832
                        (fp_div f32 (float_of_int 72) (float_of_int 5208328)))"
    by code_simp
  have h4: "j2k_bandwidth (example_frame 24 0 125000000) = 125000000
              \<and> frames_per_second (example_frame 24 0 125000000) = 24"
    by code_simp
  show ?thesis
    using codec_parameters_derivation [of "example_frame 24 0 125000000" 651041 example_parameters
        "set_parameters example_parameters 520832 (fp_div f32 (float_of_int 72) (float_of_int 5208328))"]
      h1 h2 h3 h4
    by blast
qed

text \<open>
  Claim C3 as stated fails on its own scenario: the component size is 520832, not 520833.
  The quotient is also not the exact one: for 125000063 bits per second at 24 frames per
  second the exact quotient truncates to 651041, the single-precision one to 651042.
\<close>

theorem codec_parameters_counterexample:
  "max_cs_len (example_frame 24 0 125000000) = Some 651041
   \<and> max_comp_size_of 651041 = Some 520832
   \<and> max_comp_size_of 651041 \<noteq> Some 520833
   \<and> max_cs_len (example_frame 24 0 125000063) = Some 651042
   \<and> truncate_toward_zero (125000063 / 8 / 24) = 651041"
  by code_simp

lemma example_frame_constructed:
  "int32 (round_half_even fps) = Some rate \<Longrightarrow>
     DCPVideoFrame example_image \<lparr>width = 2, height = 1\<rparr> 0 \<lparr>scaler_id = ''bicubic''\<rparr> 7 fps [] clut bw
       = Some (example_frame fps clut bw)"
  by (auto simp: DCPVideoFrame_def example_frame_def int32_def split: if_splits)

lemma encode_locally_throws_EncodeError_only:
  "fst (encode_locally T E f lg) = Threw e \<Longrightarrow> \<exists>msg. e = EncodeError msg"
  by (auto simp: encode_locally_def Let_def split: option.splits prod.splits if_splits)

lemma encode_locally_without_container:
  "\<not> opj_image_create E (out_size f) \<Longrightarrow>
     fst (encode_locally T E f lg) = Threw (EncodeError ''could not create libopenjpeg image'')"
  by (simp add: encode_locally_def Let_def)

text \<open>
  Claim C4, as the code has it. A job that the constructor builds from a frame rate that
  rounds to 0 has the frame rate 0, and its local encoding, of which the derivation of
  the codec parameters is a part, does not fail with an InvalidParameter error. The
  frame rate is not examined: when libopenjpeg gives no image container such a job fails
  with the EncodeError of the container, as any other job does.
\<close>

theorem zero_frame_rate_is_not_rejected:
  assumes "round_half_even fps = 0"
    and "DCPVideoFrame yuv out p s fr fps pp clut bw = Some f"
  shows "frames_per_second f = 0
         \<and> fst (encode_locally T E f lg) \<noteq> Threw InvalidParameter
         \<and> (\<not> opj_image_create E (out_size f) \<longrightarrow>
               fst (encode_locally T E f lg)
                 = Threw (EncodeError ''could not create libopenjpeg image''))"
proof -
  have z: "frames_per_second f = 0"
    using assms by (auto simp: DCPVideoFrame_def int32_def split: option.splits if_splits)
  have n: "fst (encode_locally T E f lg) \<noteq> Threw InvalidParameter"
    using encode_locally_throws_EncodeError_only [of T E f lg InvalidParameter] by auto
  have c: "\<not> opj_image_create E (out_size f) \<longrightarrow>
             fst (encode_locally T E f lg) = Threw (EncodeError ''could not create libopenjpeg image'')"
    using encode_locally_without_container by blast
  from z n c show ?thesis by (intro conjI)
qed

theorem zero_frame_rate_is_not_rejected_witness:
  "frames_per_second (example_frame (2 / 5) 0 125000000) = 0
   \<and> fst (encode_locally example_luts (example_environment False 1)
            (example_frame (2 / 5) 0 125000000) []) \<noteq> Threw InvalidParameter
   \<and> fst (encode_locally example_luts (example_environment False 1)
            (example_frame (2 / 5) 0 125000000) [])
       = Threw (EncodeError ''could not create libopenjpeg image'')"
proof -
  have h: "round_half_even (2 / 5) = 0"
    by code_simp
  have i: "int32 (round_half_even (2 / 5)) = Some 0"
    by code_simp
  have k: "DCPVideoFrame example_image \<lparr>width = 2, height = 1\<rparr> 0 \<lparr>scaler_id = ''bicubic''\<rparr> 7
             (2 / 5) [] 0 125000000 = Some (example_frame (2 / 5) 0 125000000)"
    using i by (rule example_frame_constructed)
  have a: "\<not> opj_image_create (example_environment False 1)
               (out_size (example_frame (2 / 5) 0 125000000))"
    by (simp add: example_environment_def)
  show ?thesis
    using zero_frame_rate_is_not_rejected [OF h k, of example_luts "example_environment False 1" "[]"] a
    by blast
qed

text \<open>
  Claim C4 as stated fails: for a job whose frame rate 0.4 rounds to 0, with a container
  at hand, the call does not end in an InvalidParameter error; in the model it runs into
  the undefined conversion of the quotient.
\<close>

theorem zero_frame_rate_counterexample:
  "frames_per_second (example_frame (2 / 5) 0 125000000) = 0
   \<and> fst (encode_locally example_luts (example_environment True 1)
            (example_frame (2 / 5) 0 125000000) []) = Undefined
   \<and> fst (encode_locally example_luts (example_environment True 1)
            (example_frame (2 / 5) 0 125000000) []) \<noteq> Threw InvalidParameter"
proof -
  have a: "frames_per_second (example_frame (2 / 5) 0 125000000) = 0"
    by code_simp
  have b: "fst (encode_locally example_luts (example_environment True 1)
            (example_frame (2 / 5) 0 125000000) []) = Undefined"
    by code_simp
  from a b show ?thesis by simp
qed

section \<open>Local encoding: errors and result\<close>

lemma make_parameters_example:
  "make_parameters example_parameters (example_frame 24 0 125000000)
     = Some (set_parameters example_parameters 520832
               (fp_div f32 (float_of_int 72) (float_of_int 5208328)))"
  by code_simp

text \<open>
  Claim C5. \<^verbatim>\<open>encode_locally\<close> throws EncodeError exactly when libopenjpeg gives no
  image container, or when the conversion and the parameters are defined and the
  compression returns the code 0; it throws no other exception; when it returns, the
  result is a \<^verbatim>\<open>LocallyEncodedData\<close> on the buffer of the codec, after a compression with
  a non-zero return code; and whenever the container exists, the conversion and the
  parameters are defined and the compression returns a non-zero code, it does return
  that \<^verbatim>\<open>LocallyEncodedData\<close> and logs the frame.
\<close>

theorem local_encoding_errors:
  "((\<exists>msg. fst (encode_locally T E f lg) = Threw (EncodeError msg)) \<longleftrightarrow>
      (\<not> opj_image_create E (out_size f)
       \<or> (\<exists>sz comps ps buf.
             int32 (width (out_size f) * height (out_size f)) = Some sz
             \<and> convert T (colour_lut_index f) (prepare E f) sz = Some comps
             \<and> make_parameters (opj_set_default_encoder_parameters E) f = Some ps
             \<and> opj_encode E ps (out_size f) comps = (0, buf))))
   \<and> (\<forall>e. fst (encode_locally T E f lg) = Threw e \<longrightarrow> (\<exists>msg. e = EncodeError msg))
   \<and> (\<forall>d. fst (encode_locally T E f lg) = Returned d \<longrightarrow>
          ed_owner d = LocallyEncoded \<and> ed_size d = int (length (ed_data d))
          \<and> opj_image_create E (out_size f)
          \<and> (\<exists>sz comps ps r.
                int32 (width (out_size f) * height (out_size f)) = Some sz
                \<and> convert T (colour_lut_index f) (prepare E f) sz = Some comps
                \<and> make_parameters (opj_set_default_encoder_parameters E) f = Some ps
                \<and> opj_encode E ps (out_size f) comps = (r, ed_data d) \<and> r \<noteq> 0))
   \<and> (\<forall>sz comps ps r buf.
          opj_image_create E (out_size f)
          \<and> int32 (width (out_size f) * height (out_size f)) = Some sz
          \<and> convert T (colour_lut_index f) (prepare E f) sz = Some comps
          \<and> make_parameters (opj_set_default_encoder_parameters E) f = Some ps
          \<and> opj_encode E ps (out_size f) comps = (r, buf) \<and> r \<noteq> 0 \<longrightarrow>
          encode_locally T E f lg
            = (Returned \<lparr>ed_data = buf, ed_size = int (length buf), ed_owner = LocallyEncoded\<rparr>,
               lg @ [''Finished locally-encoded frame '' @ show_int (frame f)]))"
proof (intro conjI)
  show "(\<exists>msg. fst (encode_locally T E f lg) = Threw (EncodeError msg)) \<longleftrightarrow>
      (\<not> opj_image_create E (out_size f)
       \<or> (\<exists>sz comps ps buf.
             int32 (width (out_size f) * height (out_size f)) = Some sz
             \<and> convert T (colour_lut_index f) (prepare E f) sz = Some comps
             \<and> make_parameters (opj_set_default_encoder_parameters E) f = Some ps
             \<and> opj_encode E ps (out_size f) comps = (0, buf)))"
    by (auto simp: encode_locally_def Let_def split: option.splits prod.splits if_splits)
  show "\<forall>e. fst (encode_locally T E f lg) = Threw e \<longrightarrow> (\<exists>msg. e = EncodeError msg)"
    by (auto simp: encode_locally_def Let_def split: option.splits prod.splits if_splits)
  show "\<forall>d. fst (encode_locally T E f lg) = Returned d \<longrightarrow>
          ed_owner d = LocallyEncoded \<and> ed_size d = int (length (ed_data d))
          \<and> opj_image_create E (out_size f)
          \<and> (\<exists>sz comps ps r.
                int32 (width (out_size f) * height (out_size f)) = Some sz
                \<and> convert T (colour_lut_index f) (prepare E f) sz = Some comps
                \<and> make_parameters (opj_set_default_encoder_parameters E) f = Some ps
                \<and> opj_encode E ps (out_size f) comps = (r, ed_data d) \<and> r \<noteq> 0)"
    by (auto simp: encode_locally_def Let_def split: option.splits prod.splits if_splits)
  show "\<forall>sz comps ps r buf.
          opj_image_create E (out_size f)
          \<and> int32 (width (out_size f) * height (out_size f)) = Some sz
          \<and> convert T (colour_lut_index f) (prepare E f) sz = Some comps
          \<and> make_parameters (opj_set_default_encoder_parameters E) f = Some ps
          \<and> opj_encode E ps (out_size f) comps = (r, buf) \<and> r \<noteq> 0 \<longrightarrow>
          encode_locally T E f lg
            = (Returned \<lparr>ed_data = buf, ed_size = int (length buf), ed_owner = LocallyEncoded\<rparr>,
               lg @ [''Finished locally-encoded frame '' @ show_int (frame f)])"
    by (simp add: encode_locally_def Let_def)
qed

theorem local_encoding_errors_witness:
  "(\<exists>msg. fst (encode_locally example_luts (example_environment False 1)
                 (example_frame 24 0 125000000) []) = Threw (EncodeError msg))
   \<and> (\<exists>msg. fst (encode_locally example_luts (example_environment True 0)
                 (example_frame 24 0 125000000) []) = Threw (EncodeError msg))
   \<and> encode_locally example_luts (example_environment True 1) (example_frame 24 0 125000000) []
       = (Returned \<lparr>ed_data = [255, 79, 255, 81], ed_size = int (length [255, 79, 255, 81 :: byte]),
                     ed_owner = LocallyEncoded\<rparr>,
          [] @ [''Finished locally-encoded frame '' @ show_int (frame (example_frame 24 0 125000000))])
   \<and> ed_owner \<lparr>ed_data = [255, 79, 255, 81], ed_size = int (length [255, 79, 255, 81 :: byte]),
                ed_owner = LocallyEncoded\<rparr> = LocallyEncoded
   \<and> opj_image_create (example_environment True 1) (out_size (example_frame 24 0 125000000))"
proof -
  let ?F = "example_frame 24 0 125000000"
  let ?P = "set_parameters example_parameters 520832
              (fp_div f32 (float_of_int 72) (float_of_int 5208328))"
  let ?D = "\<lparr>ed_data = [255, 79, 255, 81], ed_size = int (length [255, 79, 255, 81 :: byte]),
             ed_owner = LocallyEncoded\<rparr>"
  have a: "\<not> opj_image_create (example_environment False 1) (out_size ?F)"
    by (simp add: example_environment_def)
  have w1: "\<exists>msg. fst (encode_locally example_luts (example_environment False 1) ?F [])
              = Threw (EncodeError msg)"
    using local_encoding_errors [of example_luts "example_environment False 1" ?F "[]"] a by blast
  have b1: "int32 (width (out_size ?F) * height (out_size ?F)) = Some 2"
    by code_simp
  have p: "prepare (example_environment container r) ?F = example_image"
    and l: "colour_lut_index ?F = 0" for container r
    by (simp_all add: prepare_def example_environment_def example_frame_def)
  have b2: "convert example_luts (colour_lut_index ?F) (prepare (example_environment container r) ?F) 2
              = Some ([4, 16], [9, 9], [36, 0])" for container r
    by (simp only: p l convert_example)
  have b3: "make_parameters (opj_set_default_encoder_parameters (example_environment container r)) ?F
              = Some ?P" for container r
    using make_parameters_example by (simp add: example_environment_def)
  have b4: "opj_encode (example_environment container r) ?P (out_size ?F) ([4, 16], [9, 9], [36, 0])
              = (r, [255, 79, 255, 81])" for container r
    by (simp add: example_environment_def)
  have w2: "\<exists>msg. fst (encode_locally example_luts (example_environment True 0) ?F [])
              = Threw (EncodeError msg)"
    using local_encoding_errors [of example_luts "example_environment True 0" ?F "[]"]
      b1 b2 [of True 0] b3 [of True 0] b4 [of True 0]
    by blast
  have c: "opj_image_create (example_environment True 1) (out_size ?F)"
    by (simp add: example_environment_def)
  have n: "(1::int) \<noteq> 0"
    by simp
  have w3: "encode_locally example_luts (example_environment True 1) ?F []
              = (Returned ?D, [] @ [''Finished locally-encoded frame '' @ show_int (frame ?F)])"
    using local_encoding_errors [of example_luts "example_environment True 1" ?F "[]"]
      c b1 b2 [of True 1] b3 [of True 1] b4 [of True 1] n
    by blast
  then have r: "fst (encode_locally example_luts (example_environment True 1) ?F []) = Returned ?D"
    by simp
  have w4: "ed_owner ?D = LocallyEncoded"
    using local_encoding_errors [of example_luts "example_environment True 1" ?F "[]"] r by blast
  from w1 w2 w3 w4 c show ?thesis by (intro conjI)
qed

section \<open>Writing the encoded data to a file\<close>

text \<open>
  Claim C6, at an input where the code departs from it. The device has room for 3 of the
  5 bytes: \<^verbatim>\<open>fopen\<close> succeeds and \<^verbatim>\<open>fwrite\<close> comes up short. \<^verbatim>\<open>EncodedData::write\<close>
  returns normally, without WriteFileError, and has renamed the truncated temporary file
  to the final path. (When \<^verbatim>\<open>fopen\<close> fails, with \<^verbatim>\<open>errno\<close> 13 say, the call does throw
  WriteFileError with the temporary path and that number.)
\<close>

theorem write_renames_truncated_file:
  "ed_data example_encoded = [1, 2, 3, 4, 5]
   \<and> fst (EncodedData_write example_options 7 example_encoded (example_filesystem 3)) = Returned ()
   \<and> files (snd (EncodedData_write example_options 7 example_encoded (example_filesystem 3))) ''7.j2c''
       = Some [1, 2, 3]
   \<and> files (snd (EncodedData_write example_options 7 example_encoded (example_filesystem 3)))
         ''7.j2c.tmp'' = None
   \<and> fst (EncodedData_write example_options 7 example_encoded
            ((example_filesystem 3)\<lparr>fopen_errno := (\<lambda>path. Some 13)\<rparr>))
       = Threw (WriteFileError ''7.j2c.tmp'' 13)"
  by code_simp

section \<open>The protocol with the encode server\<close>

subsection \<open>Decimal numbers\<close>

lemma of_char_digit_char: "0 \<le> d \<Longrightarrow> d < 10 \<Longrightarrow> (of_char (digit_char d) :: nat) = nat (48 + d)"
proof -
  assume d: "0 \<le> d" "d < 10"
  have "(of_char (digit_char d) :: int) = (48 + d) mod 256"
    unfolding digit_char_def by (rule of_char_of)
  also have "\<dots> = 48 + d" using d by simp
  finally have "(of_char (digit_char d) :: int) = 48 + d" .
  then have "nat (of_char (digit_char d) :: int) = nat (48 + d)" by simp
  then show ?thesis by (simp only: nat_of_char)
qed

lemma is_digit_digit_char: "0 \<le> d \<Longrightarrow> d < 10 \<Longrightarrow> is_digit (digit_char d)"
  by (simp add: is_digit_def of_char_digit_char) linarith

lemma digit_value: "0 \<le> d \<Longrightarrow> d < 10 \<Longrightarrow> int (of_char (digit_char d)) - 48 = d"
  by (simp add: of_char_digit_char)

declare show_digits.simps [simp del]

lemma show_digits_digits: "0 \<le> n \<Longrightarrow> list_all is_digit (show_digits n)"
proof (induction n rule: show_digits.induct)
  case (1 n)
  show ?case
  proof (cases "n < 10")
    case True
    then show ?thesis using "1.prems" by (subst show_digits.simps) (simp add: is_digit_digit_char)
  next
    case False
    then have "list_all is_digit (show_digits (n div 10))" using 1 by simp
    moreover have "is_digit (digit_char (n mod 10))" by (simp add: is_digit_digit_char)
    ultimately show ?thesis using False by (subst show_digits.simps) simp
  qed
qed

lemma show_digits_nonempty: "show_digits n \<noteq> []"
  by (subst show_digits.simps) simp

lemma show_digits_length: "0 \<le> n \<Longrightarrow> n < 10 ^ k \<Longrightarrow> 0 < k \<Longrightarrow> length (show_digits n) \<le> k"
proof (induction n arbitrary: k rule: show_digits.induct)
  case (1 n)
  show ?case
  proof (cases "n < 10")
    case True
    then show ?thesis using "1.prems" by (subst show_digits.simps) simp
  next
    case False
    obtain k' where k: "k = Suc k'" using "1.prems"(3) by (cases k) auto
    have "k' \<noteq> 0" using False "1.prems"(2) k by (cases k') auto
    moreover have "n div 10 < 10 ^ k'" using "1.prems"(2) k by simp
    ultimately have "length (show_digits (n div 10)) \<le> k'"
      using "1.IH" [OF False, of k'] "1.prems"(1) by simp
    then show ?thesis using False k by (subst show_digits.simps) simp
  qed
qed

lemma atoi_digits_show_digits:
  "0 \<le> n \<Longrightarrow> atoi_digits acc (show_digits n @ rest)
      = atoi_digits (acc * 10 ^ length (show_digits n) + n) rest"
proof (induction n arbitrary: acc rest rule: show_digits.induct)
  case (1 n)
  show ?case
  proof (cases "n < 10")
    case True
    then have s: "show_digits n = [digit_char n]" by (subst show_digits.simps) simp
    show ?thesis using True "1.prems" by (simp add: s is_digit_digit_char digit_value)
  next
    case False
    then have s: "show_digits n = show_digits (n div 10) @ [digit_char (n mod 10)]"
      by (subst show_digits.simps) simp
    have "atoi_digits acc (show_digits (n div 10) @ digit_char (n mod 10) # rest)
            = atoi_digits (acc * 10 ^ length (show_digits (n div 10)) + n div 10)
                (digit_char (n mod 10) # rest)"
      using "1.IH" [OF False] "1.prems" by simp
    also have "\<dots> = atoi_digits ((acc * 10 ^ length (show_digits (n div 10)) + n div 10) * 10 + n mod 10) rest"
      by (simp add: is_digit_digit_char digit_value)
    also have "(acc * 10 ^ length (show_digits (n div 10)) + n div 10) * 10 + n mod 10
                 = acc * 10 ^ length (show_digits n) + n"
      by (simp add: s algebra_simps)
    finally show ?thesis by (simp add: s)
  qed
qed

subsection \<open>Reading the response\<close>

lemma unat_of_char: "unat (of_char c :: byte) = of_char c"
proof -
  have "(of_char c :: byte) = of_nat (of_char c)" by (simp only: of_nat_of_char)
  then have "unat (of_char c :: byte) = (of_char c :: nat) mod 256"
    by (simp add: unat_of_nat)
  then show ?thesis by simp
qed

lemma chars_of_bytes_of: "chars_of (bytes_of s) = s"
  by (induction s) (simp_all add: chars_of_def bytes_of_def unat_of_char)

lemma chars_of_append: "chars_of (xs @ ys) = chars_of xs @ chars_of ys"
  by (simp add: chars_of_def)

lemma chars_of_NUL: "chars_of [NUL] = [CHR 0x00]"
  by code_simp

lemma of_char_NUL: "(of_char c :: byte) = NUL \<longleftrightarrow> c = CHR 0x00"
proof
  assume "(of_char c :: byte) = NUL"
  then have "unat (of_char c :: byte) = 0" by (simp add: NUL_def)
  then have "(of_char c :: nat) = of_char (CHR 0x00)" by (simp add: unat_of_char)
  then show "c = CHR 0x00" by (simp only: of_char_eq_iff)
qed (simp add: NUL_def)

lemma NUL_bytes_of: "NUL \<in> set (bytes_of h) \<longleftrightarrow> CHR 0x00 \<in> set h"
proof
  assume "NUL \<in> set (bytes_of h)"
  then obtain c where "c \<in> set h" "(of_char c :: byte) = NUL"
    by (auto simp: bytes_of_def)
  then show "CHR 0x00 \<in> set h" by (simp add: of_char_NUL)
next
  assume "CHR 0x00 \<in> set h"
  moreover have "(of_char (CHR 0x00) :: byte) = NUL" by (simp add: NUL_def)
  ultimately show "NUL \<in> set (bytes_of h)"
    unfolding bytes_of_def by (metis image_eqI list.set_map)
qed

lemma length_bytes_of: "length (bytes_of h) = length h"
  by (simp add: bytes_of_def)

lemma read_indefinite_header:
  assumes "incoming s = bytes_of h @ NUL # rest" "CHR 0x00 \<notin> set h" "length h < 32"
  shows "socket_read_indefinite 32 s = Inr (bytes_of h @ [NUL])"
proof -
  have n: "NUL \<notin> set (bytes_of h)" using assms(2) by (simp add: NUL_bytes_of)
  obtain m where m: "32 - length h = Suc m" using assms(3) by (cases "32 - length h") auto
  have t: "take 32 (incoming s) = bytes_of h @ NUL # take m rest"
    using assms(3) by (simp add: assms(1) length_bytes_of m)
  have "takeWhile (\<lambda>b. b \<noteq> NUL) (bytes_of h @ NUL # take m rest) = bytes_of h"
    using n by (subst takeWhile_append2) auto
  then show ?thesis
    by (simp add: socket_read_indefinite_def t Let_def)
qed

lemma strlen_header:
  assumes "NUL \<notin> set bs"
  shows "strlen (bs @ [NUL]) = Some (length bs)"
proof -
  have "takeWhile (\<lambda>b. b \<noteq> NUL) (bs @ [NUL]) = bs"
    using assms by (subst takeWhile_append2) auto
  then show ?thesis by (simp add: strlen_def)
qed

lemma read_response_header:
  assumes "incoming s = bytes_of h @ NUL # rest" "CHR 0x00 \<notin> set h" "length h < 32"
  shows "read_response s =
     (case atoi (h @ [CHR 0x00]) of
        None \<Rightarrow> (Undefined, s\<lparr>incoming := rest\<rparr>)
      | Some sz \<Rightarrow>
          if sz < 0 then (Threw BadAlloc, s\<lparr>incoming := rest\<rparr>)
          else
            (case socket_read_definite_and_consume (nat sz) (s\<lparr>incoming := rest\<rparr>) of
               (Inl e, s2) \<Rightarrow> (Threw e, s2)
             | (Inr bs, s2) \<Rightarrow>
                 (Returned \<lparr>ed_data = bs, ed_size = sz, ed_owner = RemotelyEncoded\<rparr>, s2)))"
proof -
  have n: "NUL \<notin> set (bytes_of h)" using assms(2) by (simp add: NUL_bytes_of)
  have c: "socket_consume (Suc (length (bytes_of h))) s = s\<lparr>incoming := rest\<rparr>"
    by (simp add: socket_consume_def assms(1))
  have a: "chars_of (bytes_of h @ [NUL]) = h @ [CHR 0x00]"
    by (simp add: chars_of_append chars_of_bytes_of chars_of_NUL)
  show ?thesis
    unfolding read_response_def read_indefinite_header [OF assms]
    by (simp add: strlen_header [OF n] c a Let_def)
qed

lemma is_digit_not_space: "is_digit c \<Longrightarrow> \<not> is_space c"
  by (auto simp: is_digit_def is_space_def)

lemma is_digit_not_sign: "is_digit c \<Longrightarrow> c \<noteq> CHR ''-'' \<and> c \<noteq> CHR ''+''"
  by (auto simp: is_digit_def)

lemma not_is_digit_NUL: "\<not> is_digit (CHR 0x00)"
  by (simp add: is_digit_def)

lemma not_is_space_NUL: "\<not> is_space (CHR 0x00)"
  by (simp add: is_space_def)

lemma atoi_show_int:
  assumes "0 \<le> n" "n \<le> INT_MAX"
  shows "atoi (show_int n @ [CHR 0x00]) = Some n"
proof -
  obtain c cs where s: "show_digits n = c # cs"
    using show_digits_nonempty [of n] by (cases "show_digits n") auto
  have d: "is_digit c" using show_digits_digits [OF assms(1)] s by simp
  have "atoi_digits 0 (show_digits n @ [CHR 0x00]) = n"
    using atoi_digits_show_digits [OF assms(1), of 0 "[CHR 0x00]"] by (simp add: not_is_digit_NUL)
  then have "atoi (show_digits n @ [CHR 0x00]) = int32 n"
    using is_digit_not_space [OF d] is_digit_not_sign [OF d] by (simp add: atoi_def s)
  then show ?thesis
    using assms by (simp add: show_int_def int32_def INT_MIN_def)
qed

lemma atoi_no_leading_digit:
  assumes "no_leading_digit h"
  shows "atoi (h @ [CHR 0x00]) = Some 0"
proof (cases "dropWhile is_space h")
  case Nil
  then have "\<forall>c\<in>set h. is_space c" by (simp add: dropWhile_eq_Nil_conv)
  then have "dropWhile is_space (h @ [CHR 0x00]) = [CHR 0x00]"
    by (simp add: dropWhile_append2 not_is_space_NUL)
  then show ?thesis
    by (simp add: atoi_def not_is_digit_NUL int32_def INT_MIN_def INT_MAX_def)
next
  case (Cons c cs)
  then have "c \<in> set h \<and> \<not> is_space c"
    by (metis dropWhile_eq_Cons_conv in_set_conv_decomp)
  then have "dropWhile is_space (h @ [CHR 0x00]) = dropWhile is_space h @ [CHR 0x00]"
    by (auto intro: dropWhile_append1)
  then have dw: "dropWhile is_space (h @ [CHR 0x00]) = c # cs @ [CHR 0x00]"
    using Cons by simp
  show ?thesis
  proof (cases "c = CHR ''-'' \<or> c = CHR ''+''")
    case True
    then have "atoi_digits 0 (cs @ [CHR 0x00]) = 0"
      using assms Cons by (cases cs) (auto simp: no_leading_digit_def not_is_digit_NUL)
    then show ?thesis
      using True by (auto simp: atoi_def dw int32_def INT_MIN_def INT_MAX_def)
  next
    case False
    then have "\<not> is_digit c" using assms Cons by (simp add: no_leading_digit_def)
    then show ?thesis
      using False by (simp add: atoi_def dw int32_def INT_MIN_def INT_MAX_def)
  qed
qed

lemma socket_write_incoming: "socket_write bs s = (r, s') \<Longrightarrow> incoming s' = incoming s"
  by (auto simp: socket_write_def split: if_splits)

lemma write_planes_incoming: "write_planes ps s = (r, s') \<Longrightarrow> incoming s' = incoming s"
proof (induction ps arbitrary: s)
  case Nil
  then show ?case by simp
next
  case (Cons p ps)
  then show ?case
    by (auto split: option.splits prod.splits dest: socket_write_incoming)
qed

lemma write_request_incoming:
  assumes "write_request cfg f s = (r, s')"
  shows "incoming s' = incoming s"
proof -
  obtain e s1 where w: "socket_write (bytes_of (request_header cfg f) @ [NUL]) s = (e, s1)"
    by (cases "socket_write (bytes_of (request_header cfg f) @ [NUL]) s") auto
  have i: "incoming s1 = incoming s" using socket_write_incoming [OF w] .
  show ?thesis
  proof (cases e)
    case None
    then have "write_planes (planes (input f)) s1 = (r, s')"
      using assms w by (simp add: write_request_def)
    then show ?thesis using write_planes_incoming i by metis
  next
    case (Some a)
    then show ?thesis using assms w i by (simp add: write_request_def)
  qed
qed

lemma encode_remotely_read:
  assumes "resolve net (host_name serv) (show_int (server_port cfg)) = Some ep"
    and "socket_connect net ep = Some c"
    and "fst (write_request cfg f c) = Returned u"
  shows "fst (encode_remotely cfg net f serv lg) = fst (read_response (snd (write_request cfg f c)))"
    and "incoming (snd (write_request cfg f c)) = incoming c"
proof -
  obtain c' where w: "write_request cfg f c = (Returned u, c')"
    using assms(3) by (cases "write_request cfg f c") auto
  show "incoming (snd (write_request cfg f c)) = incoming c"
    using write_request_incoming [OF w] w by simp
  show "fst (encode_remotely cfg net f serv lg) = fst (read_response (snd (write_request cfg f c)))"
    by (simp add: encode_remotely_def assms(1,2) w split: prod.splits outcome.splits)
qed

lemma show_int_header:
  assumes "0 \<le> n" "n \<le> INT_MAX"
  shows "CHR 0x00 \<notin> set (show_int n)" and "length (show_int n) < 32"
proof -
  have d: "list_all is_digit (show_digits n)" using assms(1) by (rule show_digits_digits)
  show "CHR 0x00 \<notin> set (show_int n)"
    using d assms(1) not_is_digit_NUL by (auto simp: show_int_def list_all_iff)
  have "n < 10 ^ 10" using assms(2) by (simp add: INT_MAX_def)
  then have "length (show_digits n) \<le> 10" using assms(1) by (intro show_digits_length) simp_all
  then show "length (show_int n) < 32" using assms(1) by (simp add: show_int_def)
qed

lemma read_response_payload:
  assumes "0 \<le> n" "n \<le> INT_MAX" "incoming s = bytes_of (show_int n) @ NUL # payload"
  shows "fst (read_response s) =
           (if nat n \<le> length payload
            then Returned \<lparr>ed_data = take (nat n) payload, ed_size = n, ed_owner = RemotelyEncoded\<rparr>
            else Threw (NetworkError ''could not read''))"
  using assms(1)
  by (simp add: read_response_header [OF assms(3) show_int_header [OF assms(1,2)]]
      atoi_show_int [OF assms(1,2)] socket_read_definite_and_consume_def)

lemma send_emits:
  assumes "ed_size d = int (length (ed_data d))"
    and "length (show_int (ed_size d)) + 1 + length (ed_data d) \<le> accepts s"
  shows "fst (send d s) = Returned ()"
    and "sent (snd (send d s)) = sent s @ bytes_of (show_int (ed_size d)) @ [NUL] @ ed_data d"
  using assms by (auto simp: send_def socket_write_def length_bytes_of)

text \<open>
  Claim C7. For an \<^verbatim>\<open>EncodedData\<close> of M bytes whose size is an \<^verbatim>\<open>int\<close>: \<^verbatim>\<open>send\<close> on a
  socket that takes the bytes emits the decimal length, a NUL and the M bytes; the
  remote encode client whose connection delivers exactly that stream returns an
  \<^verbatim>\<open>EncodedData\<close> of length M with the same bytes; and when the connection delivers
  the header and only \<open>k < M\<close> bytes, the client fails with NetworkError. The socket
  operations are the ones modelled from section 4.4 of the specification.
\<close>

theorem wire_round_trip:
  assumes "ed_size d = int (length (ed_data d))" and "ed_size d \<le> INT_MAX"
  shows "(length (show_int (ed_size d)) + 1 + length (ed_data d) \<le> accepts s \<longrightarrow>
            fst (send d s) = Returned ()
            \<and> sent (snd (send d s)) = sent s @ bytes_of (show_int (ed_size d)) @ [NUL] @ ed_data d)
         \<and> (resolve net (host_name serv) (show_int (server_port cfg)) = Some ep
              \<and> socket_connect net ep = Some c
              \<and> fst (write_request cfg f c) = Returned ()
              \<and> incoming c = bytes_of (show_int (ed_size d)) @ [NUL] @ ed_data d \<longrightarrow>
            fst (encode_remotely cfg net f serv lg)
              = Returned \<lparr>ed_data = ed_data d, ed_size = ed_size d, ed_owner = RemotelyEncoded\<rparr>)
         \<and> (resolve net (host_name serv) (show_int (server_port cfg)) = Some ep
              \<and> socket_connect net ep = Some c
              \<and> fst (write_request cfg f c) = Returned ()
              \<and> k < length (ed_data d)
              \<and> incoming c = bytes_of (show_int (ed_size d)) @ [NUL] @ take k (ed_data d) \<longrightarrow>
            fst (encode_remotely cfg net f serv lg) = Threw (NetworkError ''could not read''))"
proof (intro conjI impI)
  assume "length (show_int (ed_size d)) + 1 + length (ed_data d) \<le> accepts s"
  then show "fst (send d s) = Returned ()"
    and "sent (snd (send d s)) = sent s @ bytes_of (show_int (ed_size d)) @ [NUL] @ ed_data d"
    using send_emits [OF assms(1)] by blast+
next
  have n: "0 \<le> ed_size d" using assms(1) by simp
  assume a: "resolve net (host_name serv) (show_int (server_port cfg)) = Some ep
              \<and> socket_connect net ep = Some c
              \<and> fst (write_request cfg f c) = Returned ()
              \<and> incoming c = bytes_of (show_int (ed_size d)) @ [NUL] @ ed_data d"
  then have a1: "resolve net (host_name serv) (show_int (server_port cfg)) = Some ep"
    and a2: "socket_connect net ep = Some c" and a3: "fst (write_request cfg f c) = Returned ()"
    by simp_all
  have r: "fst (encode_remotely cfg net f serv lg) = fst (read_response (snd (write_request cfg f c)))"
    by (rule encode_remotely_read(1) [OF a1 a2 a3])
  have i: "incoming (snd (write_request cfg f c)) = bytes_of (show_int (ed_size d)) @ NUL # ed_data d"
    using encode_remotely_read(2) [OF a1 a2 a3] a by simp
  show "fst (encode_remotely cfg net f serv lg)
          = Returned \<lparr>ed_data = ed_data d, ed_size = ed_size d, ed_owner = RemotelyEncoded\<rparr>"
    unfolding r read_response_payload [OF n assms(2) i] using assms(1) by simp
next
  have n: "0 \<le> ed_size d" using assms(1) by simp
  assume a: "resolve net (host_name serv) (show_int (server_port cfg)) = Some ep
              \<and> socket_connect net ep = Some c
              \<and> fst (write_request cfg f c) = Returned ()
              \<and> k < length (ed_data d)
              \<and> incoming c = bytes_of (show_int (ed_size d)) @ [NUL] @ take k (ed_data d)"
  then have a1: "resolve net (host_name serv) (show_int (server_port cfg)) = Some ep"
    and a2: "socket_connect net ep = Some c" and a3: "fst (write_request cfg f c) = Returned ()"
    by simp_all
  have r: "fst (encode_remotely cfg net f serv lg) = fst (read_response (snd (write_request cfg f c)))"
    by (rule encode_remotely_read(1) [OF a1 a2 a3])
  have i: "incoming (snd (write_request cfg f c)) = bytes_of (show_int (ed_size d)) @ NUL # take k (ed_data d)"
    using encode_remotely_read(2) [OF a1 a2 a3] a by simp
  show "fst (encode_remotely cfg net f serv lg) = Threw (NetworkError ''could not read'')"
    unfolding r read_response_payload [OF n assms(2) i] using assms(1) a by simp
qed

theorem wire_round_trip_witness:
  "fst (send example_encoded (example_socket [])) = Returned ()
   \<and> sent (snd (send example_encoded (example_socket []))) = [53, 0, 1, 2, 3, 4, 5]
   \<and> fst (encode_remotely (example_config 0 125000000) (example_network [53, 0, 1, 2, 3, 4, 5])
            (example_frame 24 0 125000000) \<lparr>host_name = ''server''\<rparr> [])
       = Returned \<lparr>ed_data = [1, 2, 3, 4, 5], ed_size = 5, ed_owner = RemotelyEncoded\<rparr>
   \<and> fst (encode_remotely (example_config 0 125000000) (example_network [53, 0, 1, 2, 3])
            (example_frame 24 0 125000000) \<lparr>host_name = ''server''\<rparr> [])
       = Threw (NetworkError ''could not read'')"
proof -
  have d: "ed_data example_encoded = [1, 2, 3, 4, 5]" "ed_size example_encoded = 5"
    by (simp_all add: example_encoded_def)
  have h1: "ed_size example_encoded = int (length (ed_data example_encoded))"
    by (simp add: d)
  have h2: "ed_size example_encoded \<le> INT_MAX"
    by (simp add: d INT_MAX_def)
  have hdr: "bytes_of (show_int 5) @ [NUL] = [53, 0]"
    by code_simp
  have a: "length (show_int (ed_size example_encoded)) + 1 + length (ed_data example_encoded)
             \<le> accepts (example_socket [])"
    unfolding d by code_simp
  have r: "resolve (example_network w) (host_name \<lparr>host_name = ''server''\<rparr>)
             (show_int (server_port (example_config 0 125000000))) = Some 0"
    and c: "socket_connect (example_network w) 0 = Some (example_socket w)"
    and i: "incoming (example_socket w) = w" for w
    by (simp_all add: example_network_def example_socket_def)
  have w5: "fst (write_request (example_config 0 125000000) (example_frame 24 0 125000000)
               (example_socket [53, 0, 1, 2, 3, 4, 5])) = Returned ()"
    by code_simp
  have w3: "fst (write_request (example_config 0 125000000) (example_frame 24 0 125000000)
               (example_socket [53, 0, 1, 2, 3])) = Returned ()"
    by code_simp
  have k: "(3::nat) < length (ed_data example_encoded)"
    by (simp add: d)
  note T5 = wire_round_trip [OF h1 h2, of "example_socket []" "example_network [53, 0, 1, 2, 3, 4, 5]"
      "\<lparr>host_name = ''server''\<rparr>" "example_config 0 125000000" 0 "example_socket [53, 0, 1, 2, 3, 4, 5]"
      "example_frame 24 0 125000000" "[]" 3]
  note T3 = wire_round_trip [OF h1 h2, of "example_socket []" "example_network [53, 0, 1, 2, 3]"
      "\<lparr>host_name = ''server''\<rparr>" "example_config 0 125000000" 0 "example_socket [53, 0, 1, 2, 3]"
      "example_frame 24 0 125000000" "[]" 3]
  have s: "fst (send example_encoded (example_socket [])) = Returned ()
      \<and> sent (snd (send example_encoded (example_socket [])))
          = sent (example_socket []) @ bytes_of (show_int (ed_size example_encoded)) @ [NUL]
              @ ed_data example_encoded"
    using T5 a by blast
  have e5: "fst (encode_remotely (example_config 0 125000000) (example_network [53, 0, 1, 2, 3, 4, 5])
            (example_frame 24 0 125000000) \<lparr>host_name = ''server''\<rparr> [])
       = Returned \<lparr>ed_data = ed_data example_encoded, ed_size = ed_size example_encoded,
                    ed_owner = RemotelyEncoded\<rparr>"
    using T5 r c w5 i [of "[53, 0, 1, 2, 3, 4, 5]"] hdr by (simp add: d)
  have e3: "fst (encode_remotely (example_config 0 125000000) (example_network [53, 0, 1, 2, 3])
            (example_frame 24 0 125000000) \<lparr>host_name = ''server''\<rparr> [])
       = Threw (NetworkError ''could not read'')"
    using T3 r c w3 i [of "[53, 0, 1, 2, 3]"] hdr k by (simp add: d)
  have "sent (example_socket []) = []" by (simp add: example_socket_def)
  with s e5 e3 hdr show ?thesis by (simp add: d)
qed

subsection \<open>Writing the request\<close>

lemma request_header_fields:
  "request_header cfg f
     = space_terminated (request_fields (config_colour_lut_index cfg) (config_j2k_bandwidth cfg) f)"
  by (simp add: request_header_def space_terminated_def request_fields_def comp_def)

lemma plane_bytes_Some:
  "plane_bytes p = Some bs \<Longrightarrow> bs = take (nat (line_size p * lines p)) (plane_data p)"
  by (auto simp: plane_bytes_def int32_def split: if_splits)

lemma socket_write_sent: "socket_write bs s = (None, s') \<Longrightarrow> sent s' = sent s @ bs"
  by (auto simp: socket_write_def split: if_splits)

lemma write_planes_sent:
  "fst (write_planes ps s) = Returned () \<Longrightarrow>
     sent (snd (write_planes ps s))
       = sent s @ concat (map (\<lambda>p. take (nat (line_size p * lines p)) (plane_data p)) ps)"
proof (induction ps arbitrary: s)
  case Nil
  then show ?case by simp
next
  case (Cons p ps)
  from Cons.prems obtain bs s1 where b: "plane_bytes p = Some bs"
    and w: "socket_write bs s = (None, s1)"
    and r: "write_planes (p # ps) s = write_planes ps s1"
    by (auto split: option.splits prod.splits)
  have "fst (write_planes ps s1) = Returned ()" using Cons.prems r by simp
  then have "sent (snd (write_planes ps s1))
       = sent s1 @ concat (map (\<lambda>p. take (nat (line_size p * lines p)) (plane_data p)) ps)"
    by (rule Cons.IH)
  then show ?case
    using r socket_write_sent [OF w] plane_bytes_Some [OF b] by simp
qed

lemma write_planes_completes:
  assumes "\<forall>p\<in>set ps. plane_bytes p \<noteq> None"
    and "length (concat (map (\<lambda>p. take (nat (line_size p * lines p)) (plane_data p)) ps)) \<le> accepts s"
  shows "fst (write_planes ps s) = Returned ()"
  using assms
proof (induction ps arbitrary: s)
  case Nil
  then show ?case by simp
next
  case (Cons p ps)
  obtain bs where b: "plane_bytes p = Some bs" using Cons.prems(1) by auto
  have bs: "bs = take (nat (line_size p * lines p)) (plane_data p)"
    using b by (rule plane_bytes_Some)
  define s1 where "s1 = s\<lparr>sent := sent s @ bs, accepts := accepts s - length bs\<rparr>"
  have w: "socket_write bs s = (None, s1)"
    using Cons.prems(2) by (simp add: socket_write_def s1_def bs)
  have "length (concat (map (\<lambda>p. take (nat (line_size p * lines p)) (plane_data p)) ps)) \<le> accepts s1"
    using Cons.prems(2) by (simp add: s1_def bs)
  then have "fst (write_planes ps s1) = Returned ()"
    using Cons.prems(1) by (intro Cons.IH) simp_all
  then show ?case by (simp add: b w)
qed

lemma write_request_completes:
  assumes "\<forall>p\<in>set (planes (input f)). plane_bytes p \<noteq> None"
    and "length (request_header cfg f) + 1 + length (raw_planes (input f)) \<le> accepts s"
  shows "fst (write_request cfg f s) = Returned ()"
proof -
  define hdr where "hdr = bytes_of (request_header cfg f) @ [NUL]"
  define s1 where "s1 = s\<lparr>sent := sent s @ hdr, accepts := accepts s - length hdr\<rparr>"
  have l: "length hdr = length (request_header cfg f) + 1"
    by (simp add: hdr_def length_bytes_of)
  have w: "socket_write hdr s = (None, s1)"
    using assms(2) l by (simp add: socket_write_def s1_def)
  have "length (raw_planes (input f)) \<le> accepts s1"
    using assms(2) l by (simp add: s1_def)
  then have "fst (write_planes (planes (input f)) s1) = Returned ()"
    using assms(1) unfolding raw_planes_def by (intro write_planes_completes)
  then show ?thesis
    using w by (simp add: write_request_def hdr_def)
qed

text \<open>
  Claim C8, as the code has it. The writes of the request complete when every plane
  holds its \<open>line_size * lines\<close> bytes and the peer takes the whole request; and when
  they complete, the bytes sent are one header line, NUL, and then the
  \<open>line_size * lines\<close> bytes of each plane in order, with nothing in between. In the
  header line every field of the specification's list, the last one too, is followed by
  one space, so that a space precedes the NUL. Which LUT index and bandwidth the line
  carries is the matter of claim C9.
\<close>

theorem remote_request_format:
  "((\<forall>p\<in>set (planes (input f)). plane_bytes p \<noteq> None)
      \<and> length (request_header cfg f) + 1 + length (raw_planes (input f)) \<le> accepts s \<longrightarrow>
        fst (write_request cfg f s) = Returned ())
   \<and> (fst (write_request cfg f s) = Returned () \<longrightarrow>
        (\<exists>lut bw. sent (snd (write_request cfg f s))
           = sent s @ bytes_of (space_terminated (request_fields lut bw f)) @ [NUL]
               @ raw_planes (input f)))"
proof (intro conjI impI)
  assume "(\<forall>p\<in>set (planes (input f)). plane_bytes p \<noteq> None)
      \<and> length (request_header cfg f) + 1 + length (raw_planes (input f)) \<le> accepts s"
  then show "fst (write_request cfg f s) = Returned ()"
    using write_request_completes by blast
next
  assume a: "fst (write_request cfg f s) = Returned ()"
  obtain s1 where w: "socket_write (bytes_of (request_header cfg f) @ [NUL]) s = (None, s1)"
    and r: "write_request cfg f s = write_planes (planes (input f)) s1"
    using a by (auto simp: write_request_def split: option.splits prod.splits)
  have "fst (write_planes (planes (input f)) s1) = Returned ()" using a r by simp
  then have "sent (snd (write_request cfg f s))
      = sent s @ bytes_of (request_header cfg f) @ [NUL] @ raw_planes (input f)"
    using write_planes_sent [of "planes (input f)" s1] socket_write_sent [OF w] r
    by (simp add: raw_planes_def)
  then show "\<exists>lut bw. sent (snd (write_request cfg f s))
           = sent s @ bytes_of (space_terminated (request_fields lut bw f)) @ [NUL]
               @ raw_planes (input f)"
    unfolding request_header_fields by blast
qed

theorem remote_request_format_witness:
  "fst (write_request (example_config 0 125000000) (example_frame 24 0 125000000) (example_socket []))
     = Returned ()
   \<and> (\<exists>lut bw. sent (snd (write_request (example_config 0 125000000) (example_frame 24 0 125000000)
                         (example_socket [])))
     = sent (example_socket [])
       @ bytes_of (space_terminated (request_fields lut bw (example_frame 24 0 125000000))) @ [NUL]
       @ raw_planes (input (example_frame 24 0 125000000)))"
proof -
  have a: "(\<forall>p\<in>set (planes (input (example_frame 24 0 125000000))). plane_bytes p \<noteq> None)
      \<and> length (request_header (example_config 0 125000000) (example_frame 24 0 125000000)) + 1
           + length (raw_planes (input (example_frame 24 0 125000000)))
         \<le> accepts (example_socket [])"
    by code_simp
  note T = remote_request_format [of "example_frame 24 0 125000000" "example_config 0 125000000"
      "example_socket []"]
  from T a have h: "fst (write_request (example_config 0 125000000) (example_frame 24 0 125000000)
      (example_socket [])) = Returned ()"
    by blast
  with T show ?thesis by blast
qed

text \<open>
  Claim C8 as stated fails: the request of the example job differs from the line of
  space-separated fields terminated by NUL, by the space after the last line size.
\<close>

theorem remote_request_trailing_space_counterexample:
  "fst (write_request (example_config 0 125000000) (example_frame 24 0 125000000) (example_socket []))
     = Returned ()
   \<and> sent (snd (write_request (example_config 0 125000000) (example_frame 24 0 125000000)
                  (example_socket [])))
       = bytes_of ''encode 2 1 2 2 1 0 bicubic 7 24 none 0 125000000 6 '' @ [NUL] @ [0, 1, 2, 2, 1, 0]
   \<and> spec_request (example_frame 24 0 125000000)
       = bytes_of ''encode 2 1 2 2 1 0 bicubic 7 24 none 0 125000000 6'' @ [NUL] @ [0, 1, 2, 2, 1, 0]
   \<and> sent (snd (write_request (example_config 0 125000000) (example_frame 24 0 125000000)
                  (example_socket [])))
       \<noteq> spec_request (example_frame 24 0 125000000)"
  by code_simp

text \<open>
  Claim C9, at an input where the code departs from it. A job is constructed with the
  LUT index 1 and the bandwidth 100000000; when \<^verbatim>\<open>encode_remotely\<close> runs, the
  configuration holds 0 and 250000000. The header that reaches the server carries 0 and
  250000000: \<^verbatim>\<open>encode_remotely\<close> reads \<^verbatim>\<open>Config::instance ()\<close> instead of the members
  \<^verbatim>\<open>_colour_lut_index\<close> and \<^verbatim>\<open>_j2k_bandwidth\<close> that \<^verbatim>\<open>encode_locally\<close> uses.
\<close>

theorem remote_request_ignores_job_settings:
  "colour_lut_index (example_frame 24 1 100000000) = 1
   \<and> j2k_bandwidth (example_frame 24 1 100000000) = 100000000
   \<and> map_option sent (fst (snd (encode_remotely (example_config 0 250000000) (example_network [])
        (example_frame 24 1 100000000) \<lparr>host_name = ''server''\<rparr> [])))
       = Some (bytes_of ''encode 2 1 2 2 1 0 bicubic 7 24 none 0 250000000 6 '' @ [NUL]
               @ [0, 1, 2, 2, 1, 0])"
  by code_simp

text \<open>
  Claim C10, as the code has it. When the length header fits the buffer and no decimal
  digit follows its optional white space and optional sign, as in the empty header,
  \<^verbatim>\<open>atoi\<close> gives 0 and the remote encode client returns an \<^verbatim>\<open>EncodedData\<close> of length 0
  instead of failing with NetworkError, whatever follows the header.
\<close>

theorem header_without_digits_is_zero:
  assumes "no_leading_digit h" and "CHR 0x00 \<notin> set h" and "length h < 32"
    and "resolve net (host_name serv) (show_int (server_port cfg)) = Some ep"
    and "socket_connect net ep = Some c"
    and "fst (write_request cfg f c) = Returned ()"
    and "incoming c = bytes_of h @ [NUL] @ rest"
  shows "atoi (h @ [CHR 0x00]) = Some 0
         \<and> fst (encode_remotely cfg net f serv lg)
             = Returned \<lparr>ed_data = [], ed_size = 0, ed_owner = RemotelyEncoded\<rparr>
         \<and> no_leading_digit []"
proof -
  have z: "atoi (h @ [CHR 0x00]) = Some 0"
    using assms(1) by (rule atoi_no_leading_digit)
  have r: "fst (encode_remotely cfg net f serv lg) = fst (read_response (snd (write_request cfg f c)))"
    by (rule encode_remotely_read(1) [OF assms(4,5,6)])
  have i: "incoming (snd (write_request cfg f c)) = bytes_of h @ NUL # rest"
    using encode_remotely_read(2) [OF assms(4,5,6)] assms(7) by simp
  have "fst (read_response (snd (write_request cfg f c)))
          = Returned \<lparr>ed_data = [], ed_size = 0, ed_owner = RemotelyEncoded\<rparr>"
    by (simp add: read_response_header [OF i assms(2,3)] z socket_read_definite_and_consume_def)
  moreover have "no_leading_digit []" by (simp add: no_leading_digit_def)
  ultimately show ?thesis using z r by simp
qed

theorem header_without_digits_is_zero_witness:
  "atoi (''abc'' @ [CHR 0x00]) = Some 0
   \<and> fst (encode_remotely (example_config 0 125000000)
            (example_network (bytes_of ''abc'' @ [NUL] @ [1, 2, 3, 4, 5]))
            (example_frame 24 0 125000000) \<lparr>host_name = ''server''\<rparr> [])
       = Returned \<lparr>ed_data = [], ed_size = 0, ed_owner = RemotelyEncoded\<rparr>
   \<and> no_leading_digit []"
proof -
  have h1: "no_leading_digit ''abc''" and h2: "CHR 0x00 \<notin> set ''abc''" and h3: "length ''abc'' < 32"
    by code_simp+
  have r: "resolve (example_network (bytes_of ''abc'' @ [NUL] @ [1, 2, 3, 4, 5]))
             (host_name \<lparr>host_name = ''server''\<rparr>)
             (show_int (server_port (example_config 0 125000000))) = Some 0"
    and c: "socket_connect (example_network (bytes_of ''abc'' @ [NUL] @ [1, 2, 3, 4, 5])) 0
              = Some (example_socket (bytes_of ''abc'' @ [NUL] @ [1, 2, 3, 4, 5]))"
    and i: "incoming (example_socket (bytes_of ''abc'' @ [NUL] @ [1, 2, 3, 4, 5]))
              = bytes_of ''abc'' @ [NUL] @ [1, 2, 3, 4, 5]"
    by (simp_all add: example_network_def example_socket_def)
  have w: "fst (write_request (example_config 0 125000000) (example_frame 24 0 125000000)
               (example_socket (bytes_of ''abc'' @ [NUL] @ [1, 2, 3, 4, 5]))) = Returned ()"
    by code_simp
  show ?thesis
    by (rule header_without_digits_is_zero [OF h1 h2 h3 r c w i])
qed

text \<open>
  Claim C10 as stated fails: the header \<open>5x\<close> is not a decimal number, and the client
  reads it as 5 and returns the five bytes that follow.
\<close>

theorem header_with_leading_digit_counterexample:
  "\<not> is_decimal_number ''5x''
   \<and> fst (encode_remotely (example_config 0 125000000)
            (example_network (bytes_of ''5x'' @ [NUL] @ [1, 2, 3, 4, 5]))
            (example_frame 24 0 125000000) \<lparr>host_name = ''server''\<rparr> [])
       = Returned \<lparr>ed_data = [1, 2, 3, 4, 5], ed_size = 5, ed_owner = RemotelyEncoded\<rparr>"
  by code_simp

end
